theory Spec2Isabelle
  imports Complex_Main "HOL-Library.Multiset"
begin

section \<open>Python values used by the recipe\<close>

text \<open>
  The recipe \<^verbatim>\<open>speaker_verification_plda.py\<close> is embedded function by function.
  Exceptions are values: a computation returns \<open>py_error + 'a\<close>, with \<open>Inl\<close> the
  exception that was raised. Only the exception classes that the modelled statements
  raise are listed.
\<close>

datatype py_error =
    ValueError
  | IndexError
  | FileNotFoundError
  | IsADirectoryError
  | UnpicklingError

text \<open>\<^verbatim>\<open>xs[i]\<close> for a list and a non-negative index.\<close>

definition py_index :: "'a list \<Rightarrow> nat \<Rightarrow> py_error + 'a" where
  "py_index xs i = (if i < length xs then Inr (xs ! i) else Inl IndexError)"

subsection \<open>Strings\<close>

text \<open>
  A Python \<^verbatim>\<open>str\<close> is a sequence of code points; a \<open>char\<close> stands for a code point
  below 256. \<^verbatim>\<open>str.strip()\<close> and \<^verbatim>\<open>str.rstrip()\<close> with no argument remove the
  characters for which \<^verbatim>\<open>str.isspace\<close> holds; below 256 these are the code points
  9 to 13, 28 to 32, 133 and 160.
\<close>

definition is_space :: "char \<Rightarrow> bool" where
  "is_space c =
     (let n = (of_char c :: nat)
      in (9 \<le> n \<and> n \<le> 13) \<or> (28 \<le> n \<and> n \<le> 32) \<or> n = 133 \<or> n = 160)"

definition rstrip :: "string \<Rightarrow> string" where
  "rstrip s = rev (dropWhile is_space (rev s))"

definition lstrip :: "string \<Rightarrow> string" where
  "lstrip s = dropWhile is_space s"

definition strip :: "string \<Rightarrow> string" where
  "strip s = rstrip (lstrip s)"

text \<open>
  \<^verbatim>\<open>s.split(sep)\<close> for a separator of one character: the pieces between the
  occurrences of the separator, empty pieces included, never an empty list.
\<close>

fun str_split :: "char \<Rightarrow> string \<Rightarrow> string list" where
  "str_split sep [] = [[]]"
| "str_split sep (c # cs) =
     (if c = sep then [] # str_split sep cs
      else (case str_split sep cs of
              [] \<Rightarrow> [[c]]
            | w # ws \<Rightarrow> (c # w) # ws))"

text \<open>
  \<^verbatim>\<open>int(s)\<close> in base 10, for a string that has no surrounding white space (the
  recipe calls it on the result of \<^verbatim>\<open>strip()\<close>): an optional sign, then decimal
  digits, where one underscore may stand between two digits. Anything else raises
  \<^verbatim>\<open>ValueError\<close>.
\<close>

definition is_digit :: "char \<Rightarrow> bool" where
  "is_digit c = (let n = (of_char c :: nat) in 48 \<le> n \<and> n \<le> 57)"

definition digit_val :: "char \<Rightarrow> nat" where
  "digit_val c = of_char c - 48"

fun py_digits :: "nat \<Rightarrow> string \<Rightarrow> nat option" where
  "py_digits acc [] = Some acc"
| "py_digits acc [c] = (if is_digit c then Some (acc * 10 + digit_val c) else None)"
| "py_digits acc (c # d # ds) =
     (if is_digit c then py_digits (acc * 10 + digit_val c) (d # ds)
      else if c = CHR ''_'' \<and> is_digit d then py_digits (acc * 10 + digit_val d) ds
      else None)"

definition py_int :: "string \<Rightarrow> py_error + int" where
  "py_int s =
     (let (neg, r) =
            (case s of
               [] \<Rightarrow> (False, s)
             | c # cs \<Rightarrow>
                 if c = CHR ''-'' then (True, cs)
                 else if c = CHR ''+'' then (False, cs)
                 else (False, s))
      in case r of
           [] \<Rightarrow> Inl ValueError
         | d # ds \<Rightarrow>
             if is_digit d then
               (case py_digits (digit_val d) ds of
                  None \<Rightarrow> Inl ValueError
                | Some n \<Rightarrow> Inr (if neg then - int n else int n))
             else Inl ValueError)"

section \<open>Arrays\<close>

text \<open>
  A numpy array or a torch tensor: its shape and its elements in row-major order.
  The elements are only moved around, so their type is a parameter.
\<close>

record 'a ndarray =
  shape :: "nat list"
  data :: "'a list"

text \<open>\<^verbatim>\<open>t.squeeze()\<close> drops every dimension of size one.\<close>

definition squeeze :: "'a ndarray \<Rightarrow> 'a ndarray" where
  "squeeze t = t\<lparr>shape := filter (\<lambda>n. n \<noteq> 1) (shape t)\<rparr>"

text \<open>
  \<^verbatim>\<open>t.squeeze(1)\<close> drops dimension 1 if its size is one, and raises
  \<^verbatim>\<open>IndexError\<close> if the tensor has fewer than two dimensions.
\<close>

definition squeeze1 :: "'a ndarray \<Rightarrow> py_error + 'a ndarray" where
  "squeeze1 t =
     (case shape t of
        n # m # r \<Rightarrow> Inr (if m = 1 then t\<lparr>shape := n # r\<rparr> else t)
      | _ \<Rightarrow> Inl IndexError)"

text \<open>
  \<^verbatim>\<open>numpy.concatenate((a, b), axis=0)\<close>: both arrays need the same number of
  dimensions, at least one, and the same sizes except along axis 0; otherwise
  \<^verbatim>\<open>ValueError\<close> is raised.
\<close>

definition concatenate :: "'a ndarray \<Rightarrow> 'a ndarray \<Rightarrow> py_error + 'a ndarray" where
  "concatenate a b =
     (case shape a of
        [] \<Rightarrow> Inl ValueError
      | m # ra \<Rightarrow>
          (case shape b of
             [] \<Rightarrow> Inl ValueError
           | n # rb \<Rightarrow>
               if ra = rb then Inr \<lparr>shape = (m + n) # ra, data = data a @ data b\<rparr>
               else Inl ValueError))"

text \<open>\<^verbatim>\<open>numpy.empty(shape=[0, d], dtype=numpy.float64)\<close>: no element.\<close>

definition numpy_empty :: "nat \<Rightarrow> 'a ndarray" where
  "numpy_empty d = \<lparr>shape = [0, d], data = []\<rparr>"

text \<open>
  The entries \<^verbatim>\<open>t[0]\<close>, \<^verbatim>\<open>t[1]\<close>, ... along the first axis, each one flattened.
  For a matrix these are its rows; for the output of the embedding model, of shape
  \<open>[batch, 1, dim]\<close>, the \<open>k\<close>-th entry is the embedding of the \<open>k\<close>-th utterance.
\<close>

definition rows :: "'a ndarray \<Rightarrow> 'a list list" where
  "rows t =
     (case shape t of
        [] \<Rightarrow> []
      | n # r \<Rightarrow> map (\<lambda>k. take (prod_list r) (drop (k * prod_list r) (data t))) [0..<n])"

section \<open>The stat object\<close>

text \<open>
  \<^verbatim>\<open>StatObject_SB\<close>, with the six attributes that the recipe passes to its
  constructor. The float \<^verbatim>\<open>1.0\<close> is the real number one.
\<close>

record 'a StatObject_SB =
  modelset :: "string list"
  segset :: "string list"
  start :: "int option list"
  stop :: "int option list"
  stat0 :: "real list list"
  stat1 :: "'a ndarray"

text \<open>
  Lines 66 to 81, and again lines 232 to 246: \<^verbatim>\<open>start\<close>, \<^verbatim>\<open>stop\<close> and
  \<^verbatim>\<open>stat0\<close> get one entry for each of the \<^verbatim>\<open>embeddings.shape[0]\<close> rows.
\<close>

definition stat_object ::
  "string list \<Rightarrow> string list \<Rightarrow> 'a ndarray \<Rightarrow> py_error + 'a StatObject_SB" where
  "stat_object mods segs embeddings =
     (case py_index (shape embeddings) 0 of
        Inl e \<Rightarrow> Inl e
      | Inr n \<Rightarrow>
          (let s = replicate n None;
               b = replicate n [1]
           in Inr \<lparr>StatObject_SB.modelset = mods, segset = segs,
                   start = s, stop = s, stat0 = b, stat1 = embeddings\<rparr>))"

text \<open>The records of a stat object: label, identifier and vector, position by position.\<close>

definition records :: "'a StatObject_SB \<Rightarrow> (string \<times> string \<times> 'a list) list" where
  "records obj =
     zip (StatObject_SB.modelset obj) (zip (StatObject_SB.segset obj) (rows (stat1 obj)))"

text \<open>What a stat object holds for an identifier: the labels and vectors recorded with it.\<close>

definition assigned :: "'a StatObject_SB \<Rightarrow> string \<Rightarrow> (string \<times> 'a list) set" where
  "assigned obj i =
     set (map (\<lambda>(l, s, v). (l, v)) (filter (\<lambda>(l, s, v). s = i) (records obj)))"

section \<open>Files\<close>

text \<open>
  The file system, as far as the recipe looks at it: a path is absent, a directory,
  or a regular file with its content.
\<close>

datatype 'c node = Dir | File 'c

type_synonym 'c fs = "string \<Rightarrow> 'c node option"

definition os_path_isfile :: "'c fs \<Rightarrow> string \<Rightarrow> bool" where
  "os_path_isfile fs p = (case fs p of Some (File c) \<Rightarrow> True | _ \<Rightarrow> False)"

definition os_path_exists :: "'c fs \<Rightarrow> string \<Rightarrow> bool" where
  "os_path_exists fs p = (fs p \<noteq> None)"

text \<open>\<^verbatim>\<open>pickle\<close>, at the type of the object that is stored.\<close>

record ('o, 'c) pickle =
  dump :: "'o \<Rightarrow> 'c"
  load :: "'c \<Rightarrow> py_error + 'o"

text \<open>
  \<^verbatim>\<open>with open(filename, "rb") as input: obj = pickle.load(input)\<close>.
  Whatever \<^verbatim>\<open>pickle.load\<close> returns is the result; nothing is checked.
\<close>

definition load_object :: "('o, 'c) pickle \<Rightarrow> 'c fs \<Rightarrow> string \<Rightarrow> py_error + 'o" where
  "load_object pk fs filename =
     (case fs filename of
        None \<Rightarrow> Inl FileNotFoundError
      | Some Dir \<Rightarrow> Inl IsADirectoryError
      | Some (File c) \<Rightarrow> load pk c)"

text \<open>
  Modelled from the spec: \<^verbatim>\<open>save_stat_object\<close> and \<^verbatim>\<open>save_ndx_object\<close>, methods of
  \<^verbatim>\<open>speechbrain.processing.PLDA_LDA\<close> whose code is not part of this file.
  The spec has the stat object and the trial index persisted at the given path in
  serialized form; a path that is a directory cannot be opened for writing.
\<close>

definition save_object :: "('o, 'c) pickle \<Rightarrow> 'c fs \<Rightarrow> string \<Rightarrow> 'o \<Rightarrow> py_error + 'c fs" where
  "save_object pk fs filename obj =
     (case fs filename of
        Some Dir \<Rightarrow> Inl IsADirectoryError
      | _ \<Rightarrow> Inr (fs(filename \<mapsto> File (dump pk obj))))"

section \<open>\<^verbatim>\<open>emb_computation_loop\<close>\<close>

text \<open>
  The dictionary \<^verbatim>\<open>params\<close> and the library functions, as far as the modelled code
  uses them. \<^verbatim>\<open>compute_embeddings\<close> runs the feature front end and the embedding
  model, which are outside this file; \<^verbatim>\<open>convert_index_to_lab\<close> (with
  \<^verbatim>\<open>ind2lab\<close> already supplied) and the constructor \<^verbatim>\<open>Ndx\<close> are library code.
\<close>

record ('w, 'l, 'k, 'a, 'n) params =
  emb_dim :: nat
  compute_embeddings :: "'w \<Rightarrow> 'l \<Rightarrow> 'a ndarray"
  convert_index_to_lab :: "'k \<Rightarrow> string list list"
  Ndx :: "string list \<Rightarrow> string list \<Rightarrow> 'n"

text \<open>
  The loop of lines 54 to 64 over the batches \<^verbatim>\<open>wav[0] = (ids, wavs, lens)\<close> of
  the loader; the state is \<^verbatim>\<open>(modelset, segset, embeddings)\<close>, the first two written
  \<open>mods\<close> and \<open>segs\<close>.
\<close>

fun emb_batches ::
  "('w, 'l, 'k, 'a, 'n) params \<Rightarrow> string list \<times> string list \<times> 'a ndarray \<Rightarrow>
   (string list \<times> 'w \<times> 'l) list \<Rightarrow> py_error + string list \<times> string list \<times> 'a ndarray" where
  "emb_batches params (mods, segs, embeddings) [] = Inr (mods, segs, embeddings)"
| "emb_batches params (mods, segs, embeddings) ((ids, wavs, lens) # t) =
     (let mod_l = ids;
          seg_l = ids;
          mods = mods @ mod_l;
          segs = segs @ seg_l;
          embs = compute_embeddings params wavs lens;
          xv = squeeze embs
      in case concatenate embeddings xv of
           Inl e \<Rightarrow> Inl e
         | Inr embeddings \<Rightarrow> emb_batches params (mods, segs, embeddings) t)"

text \<open>
  \<^verbatim>\<open>emb_computation_loop(split, set_loader, stat_file)\<close>; the argument
  \<^verbatim>\<open>split\<close> is only logged. The file system is passed in and returned.
\<close>

definition emb_computation_loop ::
  "('w, 'l, 'k, 'a, 'n) params \<Rightarrow> ('a StatObject_SB, 'c) pickle \<Rightarrow> 'c fs \<Rightarrow>
   (string list \<times> 'w \<times> 'l) list \<Rightarrow> string \<Rightarrow> py_error + 'c fs \<times> 'a StatObject_SB" where
  "emb_computation_loop params pk fs set_loader stat_file =
     (if \<not> os_path_isfile fs stat_file then
        (case emb_batches params ([], [], numpy_empty (emb_dim params)) set_loader of
           Inl e \<Rightarrow> Inl e
         | Inr (mods, segs, embeddings) \<Rightarrow>
             (case stat_object mods segs embeddings of
                Inl e \<Rightarrow> Inl e
              | Inr stat_obj \<Rightarrow>
                  (case save_object pk fs stat_file stat_obj of
                     Inl e \<Rightarrow> Inl e
                   | Inr fs' \<Rightarrow> Inr (fs', stat_obj))))
      else
        (case load_object pk fs stat_file of
           Inl e \<Rightarrow> Inl e
         | Inr stat_obj \<Rightarrow> Inr (fs, stat_obj)))"

section \<open>The main script: training embeddings and trial index\<close>

text \<open>\<^verbatim>\<open>[sid[0] for sid in spk_id_str]\<close>.\<close>

fun first_of_each :: "'a list list \<Rightarrow> py_error + 'a list" where
  "first_of_each [] = Inr []"
| "first_of_each (sid # t) =
     (case py_index sid 0 of
        Inl e \<Rightarrow> Inl e
      | Inr x \<Rightarrow> (case first_of_each t of Inl e \<Rightarrow> Inl e | Inr xs \<Rightarrow> Inr (x # xs)))"

text \<open>
  The loop of lines 212 to 229. A batch is a pair \<^verbatim>\<open>(wav, spk_id)\<close> of triples;
  \<^verbatim>\<open>lens\<close> is bound twice, and the second binding is the one in force when the
  embeddings are computed.
\<close>

fun train_batches ::
  "('w, 'l, 'k, 'a, 'n) params \<Rightarrow> string list \<times> string list \<times> 'a ndarray \<Rightarrow>
   (('u \<times> 'w \<times> 'l) \<times> (string list \<times> 'k \<times> 'l)) list \<Rightarrow>
   py_error + string list \<times> string list \<times> 'a ndarray" where
  "train_batches params (mods, segs, embeddings) [] = Inr (mods, segs, embeddings)"
| "train_batches params (mods, segs, embeddings)
     (((u, wav, lens0), (snt_id, spk_id, lens)) # t) =
     (let spk_id_str = convert_index_to_lab params spk_id
      in case first_of_each spk_id_str of
           Inl e \<Rightarrow> Inl e
         | Inr spk_ids \<Rightarrow>
             (let mods = mods @ spk_ids;
                  segs = segs @ snt_id;
                  emb = compute_embeddings params wav lens
              in case squeeze1 emb of
                   Inl e \<Rightarrow> Inl e
                 | Inr xv \<Rightarrow>
                     (case concatenate embeddings xv of
                        Inl e \<Rightarrow> Inl e
                      | Inr embeddings \<Rightarrow>
                          train_batches params (mods, segs, embeddings) t)))"

text \<open>Lines 178 to 260: the stat object of the training set, computed or loaded.\<close>

definition train_embeddings ::
  "('w, 'l, 'k, 'a, 'n) params \<Rightarrow> ('a StatObject_SB, 'c) pickle \<Rightarrow> 'c fs \<Rightarrow>
   (('u \<times> 'w \<times> 'l) \<times> (string list \<times> 'k \<times> 'l)) list \<Rightarrow> string \<Rightarrow>
   py_error + 'c fs \<times> 'a StatObject_SB" where
  "train_embeddings params pk fs train_set xv_file =
     (if \<not> os_path_exists fs xv_file then
        (case train_batches params ([], [], numpy_empty (emb_dim params)) train_set of
           Inl e \<Rightarrow> Inl e
         | Inr (mods, segs, embeddings) \<Rightarrow>
             (case stat_object mods segs embeddings of
                Inl e \<Rightarrow> Inl e
              | Inr embeddings_stat \<Rightarrow>
                  (case save_object pk fs xv_file embeddings_stat of
                     Inl e \<Rightarrow> Inl e
                   | Inr fs' \<Rightarrow> Inr (fs', embeddings_stat))))
      else
        (case load_object pk fs xv_file of
           Inl e \<Rightarrow> Inl e
         | Inr embeddings_stat \<Rightarrow> Inr (fs, embeddings_stat)))"

text \<open>Lines 283 to 295: the trial index, built or loaded.\<close>

definition prepare_ndx ::
  "('w, 'l, 'k, 'a, 'n) params \<Rightarrow> ('n, 'c) pickle \<Rightarrow> 'c fs \<Rightarrow>
   'a StatObject_SB \<Rightarrow> 'a StatObject_SB \<Rightarrow> string \<Rightarrow> py_error + 'c fs \<times> 'n" where
  "prepare_ndx params pk fs enrol_obj test_obj ndx_file =
     (if \<not> os_path_isfile fs ndx_file then
        (let models = StatObject_SB.modelset enrol_obj;
             testsegs = StatObject_SB.modelset test_obj;
             ndx_obj = Ndx params models testsegs
         in case save_object pk fs ndx_file ndx_obj of
              Inl e \<Rightarrow> Inl e
            | Inr fs' \<Rightarrow> Inr (fs', ndx_obj))
      else
        (case load_object pk fs ndx_file of
           Inl e \<Rightarrow> Inl e
         | Inr ndx_obj \<Rightarrow> Inr (fs, ndx_obj)))"

section \<open>\<^verbatim>\<open>compute_EER\<close>\<close>

text \<open>
  The object returned by \<^verbatim>\<open>fast_PLDA_scoring\<close>, as far as \<^verbatim>\<open>compute_EER\<close>
  reads it: the two identifier arrays and the score matrix, a list of rows.
  The scores are only moved around, so their type is a parameter.
\<close>

record 's Scores =
  modelset :: "string list"
  segset :: "string list"
  scoremat :: "'s list list"

text \<open>
  The expression \<^verbatim>\<open>f.rstrip().split(".")[0].strip()\<close> that lines 105 to 107 apply
  to a field \<open>f\<close> of the line. \<open>str_split\<close> never returns an empty list, so the index
  \<open>0\<close> cannot fail.
\<close>

definition field_id :: "string \<Rightarrow> string" where
  "field_id f = strip (hd (str_split CHR ''.'' (rstrip f)))"

text \<open>The field \<^verbatim>\<open>line.split(" ")[k]\<close>, turned into an identifier.\<close>

definition line_field :: "string \<Rightarrow> nat \<Rightarrow> py_error + string" where
  "line_field line k =
     (case py_index (str_split CHR '' '' line) k of
        Inl e \<Rightarrow> Inl e
      | Inr f \<Rightarrow> Inr (field_id f))"

text \<open>Line 105: the label.\<close>

definition line_lab :: "string \<Rightarrow> py_error + int" where
  "line_lab line =
     (case line_field line 0 of
        Inl e \<Rightarrow> Inl e
      | Inr f \<Rightarrow> py_int f)"

text \<open>\<^verbatim>\<open>numpy.where(arr == x)[0]\<close>: the indices at which the array holds \<open>x\<close>, ascending.\<close>

definition numpy_where :: "'a list \<Rightarrow> 'a \<Rightarrow> nat list" where
  "numpy_where arr x = filter (\<lambda>i. arr ! i = x) [0..<length arr]"

text \<open>\<^verbatim>\<open>scoremat[i, j]\<close>, which raises \<^verbatim>\<open>IndexError\<close> out of bounds.\<close>

definition mat_index :: "'s list list \<Rightarrow> nat \<Rightarrow> nat \<Rightarrow> py_error + 's" where
  "mat_index m i j =
     (case py_index m i of
        Inl e \<Rightarrow> Inl e
      | Inr row \<Rightarrow> py_index row j)"

text \<open>Lines 110 to 113: the score of the trial \<open>(enrol_id, test_id)\<close>.\<close>

definition trial_score :: "'s Scores \<Rightarrow> string \<Rightarrow> string \<Rightarrow> py_error + 's" where
  "trial_score scores_plda enrol_id test_id =
     (case py_index (numpy_where (modelset scores_plda) enrol_id) 0 of
        Inl e \<Rightarrow> Inl e
      | Inr i \<Rightarrow>
          (case py_index (numpy_where (segset scores_plda) test_id) 0 of
             Inl e \<Rightarrow> Inl e
           | Inr j \<Rightarrow> mat_index (scoremat scores_plda) i j))"

text \<open>
  The four lists that the loop fills: \<^verbatim>\<open>ids\<close>, \<^verbatim>\<open>labels\<close>,
  \<^verbatim>\<open>positive_scores\<close> and \<^verbatim>\<open>negative_scores\<close>.
\<close>

record 's eer_lists =
  ids :: "string list"
  labels :: "int list"
  positive_scores :: "'s list"
  negative_scores :: "'s list"

text \<open>The body of the loop of lines 104 to 119, for one line of the trial file.\<close>

definition trial_line :: "'s Scores \<Rightarrow> 's eer_lists \<Rightarrow> string \<Rightarrow> py_error + 's eer_lists" where
  "trial_line scores_plda st line =
     (case line_lab line of
        Inl e \<Rightarrow> Inl e
      | Inr lab \<Rightarrow>
     (case line_field line 1 of
        Inl e \<Rightarrow> Inl e
      | Inr enrol_id \<Rightarrow>
     (case line_field line 2 of
        Inl e \<Rightarrow> Inl e
      | Inr test_id \<Rightarrow>
     (case trial_score scores_plda enrol_id test_id of
        Inl e \<Rightarrow> Inl e
      | Inr s \<Rightarrow>
          (let st1 = st\<lparr>labels := labels st @ [lab],
                         ids := ids st @ [enrol_id @ ''<>'' @ test_id]\<rparr>
           in if lab = 1
              then Inr (st1\<lparr>positive_scores := positive_scores st1 @ [s]\<rparr>)
              else Inr (st1\<lparr>negative_scores := negative_scores st1 @ [s]\<rparr>))))))"

fun trial_loop :: "'s Scores \<Rightarrow> 's eer_lists \<Rightarrow> string list \<Rightarrow> py_error + 's eer_lists" where
  "trial_loop scores_plda st [] = Inr st"
| "trial_loop scores_plda st (line # rest) =
     (case trial_line scores_plda st line of
        Inl e \<Rightarrow> Inl e
      | Inr st' \<Rightarrow> trial_loop scores_plda st' rest)"

definition empty_lists :: "'s eer_lists" where
  "empty_lists = \<lparr>ids = [], labels = [], positive_scores = [], negative_scores = []\<rparr>"

text \<open>
  \<^verbatim>\<open>compute_EER\<close>. The lines of the trial file are an argument, and so are two
  library functions: \<^verbatim>\<open>torch.tensor\<close>, which turns each list of scores into a tensor
  (of single precision for a list of Python floats, so that the scores may be rounded),
  and \<^verbatim>\<open>EER\<close> of \<^verbatim>\<open>speechbrain.utils.metric_stats\<close>, which returns a pair of the
  error rate and the threshold for the two tensors, or raises.
\<close>

definition compute_EER ::
  "('s list \<Rightarrow> 't) \<Rightarrow> ('t \<Rightarrow> 't \<Rightarrow> py_error + ('r \<times> 'r)) \<Rightarrow> 's Scores \<Rightarrow> string list \<Rightarrow>
   py_error + 'r" where
  "compute_EER torch_tensor EER scores_plda gt_lines =
     (case trial_loop scores_plda empty_lists gt_lines of
        Inl e \<Rightarrow> Inl e
      | Inr st \<Rightarrow>
          (case EER (torch_tensor (positive_scores st)) (torch_tensor (negative_scores st)) of
             Inl e \<Rightarrow> Inl e
           | Inr (eer, th) \<Rightarrow> Inr eer))"

text \<open>
  Two predicates on a line of the trial file, used to state the properties:
  the line is a trial with label \<open>lab\<close> whose score \<open>s\<close> is found in the score matrix,
  and the line has its three fields but one of its two identifiers is in neither list.
\<close>

definition found_trial :: "'s Scores \<Rightarrow> string \<Rightarrow> int \<Rightarrow> 's \<Rightarrow> bool" where
  "found_trial scores_plda line lab s =
     (line_lab line = Inr lab \<and>
      (case line_field line 1 of
         Inl e \<Rightarrow> False
       | Inr enrol_id \<Rightarrow>
           (case line_field line 2 of
              Inl e \<Rightarrow> False
            | Inr test_id \<Rightarrow> trial_score scores_plda enrol_id test_id = Inr s)))"

definition absent_trial :: "'s Scores \<Rightarrow> string \<Rightarrow> bool" where
  "absent_trial scores_plda line =
     (case line_field line 1 of
        Inl e \<Rightarrow> False
      | Inr enrol_id \<Rightarrow>
          (case line_field line 2 of
             Inl e \<Rightarrow> False
           | Inr test_id \<Rightarrow>
               enrol_id \<notin> set (modelset scores_plda) \<or> test_id \<notin> set (segset scores_plda)))"

text \<open>
  Further notions used to state the properties of the lookup. An index is the first
  match of an identifier in an array when the array holds the identifier there and
  nowhere before. A line is a listed trial when its label parses and its two identifiers
  occur in \<^verbatim>\<open>modelset\<close> and in \<^verbatim>\<open>segset\<close>; it selects the entry \<open>(i, j)\<close> of the
  score matrix when \<open>i\<close> and \<open>j\<close> are the first matches of its two identifiers. The
  score matrix of a \<^verbatim>\<open>Scores\<close> object is an array with one row for every entry of
  \<^verbatim>\<open>modelset\<close> and one column for every entry of \<^verbatim>\<open>segset\<close>.
\<close>

definition first_match :: "'a list \<Rightarrow> 'a \<Rightarrow> nat \<Rightarrow> bool" where
  "first_match arr x i = (i < length arr \<and> arr ! i = x \<and> x \<notin> set (take i arr))"

definition listed_trial :: "'s Scores \<Rightarrow> string \<Rightarrow> bool" where
  "listed_trial scores_plda line =
     (case line_lab line of
        Inl e \<Rightarrow> False
      | Inr lab \<Rightarrow>
          (case line_field line 1 of
             Inl e \<Rightarrow> False
           | Inr enrol_id \<Rightarrow>
               (case line_field line 2 of
                  Inl e \<Rightarrow> False
                | Inr test_id \<Rightarrow>
                    enrol_id \<in> set (modelset scores_plda) \<and> test_id \<in> set (segset scores_plda))))"

definition selected_trial :: "'s Scores \<Rightarrow> string \<Rightarrow> int \<Rightarrow> nat \<Rightarrow> nat \<Rightarrow> bool" where
  "selected_trial scores_plda line lab i j =
     (line_lab line = Inr lab \<and>
      (case line_field line 1 of
         Inl e \<Rightarrow> False
       | Inr enrol_id \<Rightarrow>
           (case line_field line 2 of
              Inl e \<Rightarrow> False
            | Inr test_id \<Rightarrow>
                first_match (modelset scores_plda) enrol_id i \<and>
                first_match (segset scores_plda) test_id j)))"

definition score_matrix_ok :: "'s Scores \<Rightarrow> bool" where
  "score_matrix_ok scores_plda =
     (length (scoremat scores_plda) = length (modelset scores_plda) \<and>
      list_all (\<lambda>row. length row = length (segset scores_plda)) (scoremat scores_plda))"

section \<open>Notions used to state the properties of the stat objects\<close>

text \<open>
  What the first branch of \<^verbatim>\<open>emb_computation_loop\<close> builds before it saves
  (lines 47 to 81), and what the main script builds for the training set (lines 178
  to 246).
\<close>

definition emb_stat_object ::
  "('w, 'l, 'k, 'a, 'n) params \<Rightarrow> (string list \<times> 'w \<times> 'l) list \<Rightarrow>
   py_error + 'a StatObject_SB" where
  "emb_stat_object params set_loader =
     (case emb_batches params ([], [], numpy_empty (emb_dim params)) set_loader of
        Inl e \<Rightarrow> Inl e
      | Inr (mods, segs, embeddings) \<Rightarrow> stat_object mods segs embeddings)"

definition train_stat_object ::
  "('w, 'l, 'k, 'a, 'n) params \<Rightarrow>
   (('u \<times> 'w \<times> 'l) \<times> (string list \<times> 'k \<times> 'l)) list \<Rightarrow> py_error + 'a StatObject_SB" where
  "train_stat_object params train_set =
     (case train_batches params ([], [], numpy_empty (emb_dim params)) train_set of
        Inl e \<Rightarrow> Inl e
      | Inr (mods, segs, embeddings) \<Rightarrow> stat_object mods segs embeddings)"

text \<open>
  The contract of the embedding extractor for a batch of identifiers: one entry per
  utterance along the first axis, as a matrix \<open>[batch, dim]\<close> or as the tensor
  \<open>[batch, 1, dim]\<close> that the embedding model returns.
\<close>

definition emb_shape_ok :: "string list \<Rightarrow> 'a ndarray \<Rightarrow> bool" where
  "emb_shape_ok batch_ids t =
     (case shape t of
        [b, d] \<Rightarrow> b = length batch_ids \<and> length (data t) = b * d
      | [b, one, d] \<Rightarrow> b = length batch_ids \<and> one = 1 \<and> length (data t) = b * d
      | _ \<Rightarrow> False)"

definition loader_ok ::
  "('w, 'l, 'k, 'a, 'n) params \<Rightarrow> (string list \<times> 'w \<times> 'l) list \<Rightarrow> bool" where
  "loader_ok params set_loader =
     list_all (\<lambda>(batch_ids, wavs, lens).
        emb_shape_ok batch_ids (compute_embeddings params wavs lens)) set_loader"

text \<open>The utterances that a loader delivers: each identifier with its embedding.\<close>

definition utterances ::
  "('w, 'l, 'k, 'a, 'n) params \<Rightarrow> (string list \<times> 'w \<times> 'l) list \<Rightarrow>
   (string \<times> 'a list) list" where
  "utterances params set_loader =
     concat (map (\<lambda>(batch_ids, wavs, lens).
        zip batch_ids (rows (compute_embeddings params wavs lens))) set_loader)"

text \<open>
  The invariant of a stat object that the recipe builds: every \<^verbatim>\<open>start\<close> and
  \<^verbatim>\<open>stop\<close> entry is \<^verbatim>\<open>None\<close>, every row of \<^verbatim>\<open>stat0\<close> is the single value
  \<^verbatim>\<open>1.0\<close>, and there is one entry of each for every row of \<^verbatim>\<open>stat1\<close>.
\<close>

definition stat_invariant :: "'a StatObject_SB \<Rightarrow> bool" where
  "stat_invariant obj =
     (list_all (\<lambda>x. x = None) (start obj) \<and>
      list_all (\<lambda>x. x = None) (stop obj) \<and>
      list_all (\<lambda>x. x = [1]) (stat0 obj) \<and>
      length (start obj) = length (rows (stat1 obj)) \<and>
      length (stop obj) = length (rows (stat1 obj)) \<and>
      length (stat0 obj) = length (rows (stat1 obj)))"

section \<open>Example inputs\<close>

text \<open>
  A score matrix in which the first model and the first segment identifier occur twice,
  a score matrix whose identifiers have no directory part, a score matrix in which an
  identifier occurs twice and not at the first index, some lines of a trial file, a
  trial file with labels 1 and 0 only, a trial file for the matrix with later duplicates,
  a stand-in for \<^verbatim>\<open>torch.tensor\<close> on scores that single precision holds exactly,
  and two stand-ins for the library function \<^verbatim>\<open>EER\<close> that differ in the threshold only.
\<close>

definition ex_scores :: "int Scores" where
  "ex_scores =
     \<lparr>modelset = [''id1/v/00001'', ''id2/v/00007'', ''id1/v/00001''],
      segset = [''id3/w/00002'', ''id4/w/00005'', ''id3/w/00002''],
      scoremat = [[11, 12, 13], [21, 22, 23], [31, 32, 33]]\<rparr>"

definition ex_bare_scores :: "int Scores" where
  "ex_bare_scores = \<lparr>modelset = [''00007''], segset = [''00002''], scoremat = [[5]]\<rparr>"

definition ex_dup_scores :: "int Scores" where
  "ex_dup_scores =
     \<lparr>modelset = [''id2/v/00007'', ''id1/v/00001'', ''id5/v/00003'', ''id1/v/00001''],
      segset = [''id4/w/00005'', ''id3/w/00002'', ''id3/w/00002''],
      scoremat = [[11, 12, 13], [21, 22, 23], [31, 32, 33], [41, 42, 43]]\<rparr>"

definition ex_line :: string where
  "ex_line = ''1 id2/v/00007.wav id3/w/00002.wav'' @ [CHR 0x0A]"

definition ex_lines :: "string list" where
  "ex_lines =
     [''1 id2/v/00007.wav id3/w/00002.wav'' @ [CHR 0x0A],
      ''0 id1/v/00001.wav id4/w/00005.wav'' @ [CHR 0x0A],
      ''2 id1/v/00001.wav id3/w/00002.wav'' @ [CHR 0x0A],
      ''-1 id2/v/00007.wav id4/w/00005.wav'' @ [CHR 0x0A]]"

definition ex_absent_line :: string where
  "ex_absent_line = ''1 id9/v/00001.wav id3/w/00002.wav'' @ [CHR 0x0A]"

definition ex_badlabel_absent_line :: string where
  "ex_badlabel_absent_line = ''x id9/v/00001.wav id3/w/00002.wav'' @ [CHR 0x0A]"

definition ex_binary_lines :: "string list" where
  "ex_binary_lines =
     [''1 id2/v/00007.wav id3/w/00002.wav'' @ [CHR 0x0A],
      ''0 id1/v/00001.wav id4/w/00005.wav'' @ [CHR 0x0A],
      ''0 id2/v/00007.wav id4/w/00005.wav'' @ [CHR 0x0A],
      ''1 id1/v/00001.wav id3/w/00002.wav'' @ [CHR 0x0A]]"

definition ex_dup_lines :: "string list" where
  "ex_dup_lines =
     [''0 id1/v/00001.wav id3/w/00002.wav'' @ [CHR 0x0A],
      ''1 id5/v/00003.wav id3/w/00002.wav'' @ [CHR 0x0A],
      ''1 id1/v/00001.wav id4/w/00005.wav'' @ [CHR 0x0A]]"

definition ex_tensor :: "int list \<Rightarrow> int list" where
  "ex_tensor scores = scores"

definition ex_EER :: "int list \<Rightarrow> int list \<Rightarrow> py_error + (int \<times> int)" where
  "ex_EER pos neg = Inr (int (length pos), int (length neg))"

definition ex_EER2 :: "int list \<Rightarrow> int list \<Rightarrow> py_error + (int \<times> int)" where
  "ex_EER2 pos neg = Inr (int (length pos), 7)"

text \<open>
  An extractor that returns the given vectors as a tensor \<open>[batch, 1, 2]\<close>, a loader
  with two batches of two utterances, the same utterances in another order and grouping,
  a loader whose last batch holds one utterance, a training set whose first batch holds
  one utterance, the stat objects that are built, a stat object of an older run, and two
  file systems. A file holds a stat object or a trial index. \<^verbatim>\<open>pickle.load\<close> returns
  whatever object the file holds: the trial index that is loaded may be any of the two,
  while the stand-in for loading a stat object raises on a file that holds a trial
  index, where the recipe would go on with an object of the wrong class.
\<close>

definition ex_params ::
  "(int list list, unit, string list, int, int StatObject_SB + string list \<times> string list) params" where
  "ex_params =
     \<lparr>emb_dim = 2,
      compute_embeddings = (\<lambda>wavs lens. \<lparr>shape = [length wavs, 1, 2], data = concat wavs\<rparr>),
      convert_index_to_lab = map (\<lambda>x. [x]),
      Ndx = (\<lambda>models testsegs. Inr (models, testsegs))\<rparr>"

definition ex_loader :: "(string list \<times> int list list \<times> unit) list" where
  "ex_loader = [([''a'', ''b''], [[1, 2], [3, 4]], ()), ([''c'', ''d''], [[5, 6], [7, 8]], ())]"

definition ex_loader_permuted :: "(string list \<times> int list list \<times> unit) list" where
  "ex_loader_permuted = [([''d'', ''a''], [[7, 8], [1, 2]], ()), ([''c'', ''b''], [[5, 6], [3, 4]], ())]"

definition ex_loader_single :: "(string list \<times> int list list \<times> unit) list" where
  "ex_loader_single = [([''a'', ''b''], [[1, 2], [3, 4]], ()), ([''c''], [[5, 6]], ())]"

definition ex_train_set ::
  "((unit \<times> int list list \<times> unit) \<times> (string list \<times> string list \<times> unit)) list" where
  "ex_train_set =
     [(((), [[1, 2]], ()), ([''utt1''], [''spkA''], ())),
      (((), [[3, 4], [5, 6]], ()), ([''utt2'', ''utt3''], [''spkA'', ''spkB''], ()))]"

definition ex_pickle ::
  "(int StatObject_SB, int StatObject_SB + string list \<times> string list) pickle" where
  "ex_pickle =
     \<lparr>dump = Inl,
      load = (\<lambda>c. case c of Inl obj \<Rightarrow> Inr obj | Inr x \<Rightarrow> Inl UnpicklingError)\<rparr>"

definition ex_ndx_pickle ::
  "(int StatObject_SB + string list \<times> string list,
    int StatObject_SB + string list \<times> string list) pickle" where
  "ex_ndx_pickle = \<lparr>dump = (\<lambda>obj. obj), load = Inr\<rparr>"

definition ex_obj :: "int StatObject_SB" where
  "ex_obj =
     \<lparr>StatObject_SB.modelset = [''a'', ''b'', ''c'', ''d''],
      segset = [''a'', ''b'', ''c'', ''d''],
      start = [None, None, None, None], stop = [None, None, None, None],
      stat0 = [[1], [1], [1], [1]],
      stat1 = \<lparr>shape = [4, 2], data = [1, 2, 3, 4, 5, 6, 7, 8]\<rparr>\<rparr>"

definition ex_obj_permuted :: "int StatObject_SB" where
  "ex_obj_permuted =
     \<lparr>StatObject_SB.modelset = [''d'', ''a'', ''c'', ''b''],
      segset = [''d'', ''a'', ''c'', ''b''],
      start = [None, None, None, None], stop = [None, None, None, None],
      stat0 = [[1], [1], [1], [1]],
      stat1 = \<lparr>shape = [4, 2], data = [7, 8, 1, 2, 5, 6, 3, 4]\<rparr>\<rparr>"

definition ex_train_obj :: "int StatObject_SB" where
  "ex_train_obj =
     \<lparr>StatObject_SB.modelset = [''spkA'', ''spkA'', ''spkB''],
      segset = [''utt1'', ''utt2'', ''utt3''],
      start = [None, None, None], stop = [None, None, None],
      stat0 = [[1], [1], [1]],
      stat1 = \<lparr>shape = [3, 2], data = [1, 2, 3, 4, 5, 6]\<rparr>\<rparr>"

definition ex_stale_obj :: "int StatObject_SB" where
  "ex_stale_obj =
     \<lparr>StatObject_SB.modelset = [''zzz''], segset = [], start = [], stop = [Some 3],
      stat0 = [[0, 5]], stat1 = \<lparr>shape = [], data = [9]\<rparr>\<rparr>"

definition ex_fs_empty :: "(int StatObject_SB + string list \<times> string list) fs" where
  "ex_fs_empty = (\<lambda>p. None)"

definition ex_fs_stale :: "(int StatObject_SB + string list \<times> string list) fs" where
  "ex_fs_stale = (\<lambda>p. if p = ''stat.pkl'' then Some (File (Inl ex_stale_obj)) else None)"

section \<open>Facts about the string operations\<close>

lemma str_split_not_Nil: "str_split sep s \<noteq> []"
  by (induction s) (auto split: list.splits)

lemma hd_str_split: "hd (str_split sep s) = takeWhile (\<lambda>c. c \<noteq> sep) s"
  using str_split_not_Nil [of sep] by (induction s) (auto split: list.splits)

lemma set_rstrip: "set (rstrip s) \<subseteq> set s"
  unfolding rstrip_def using set_dropWhileD by fastforce

lemma set_strip: "set (strip s) \<subseteq> set s"
  unfolding strip_def lstrip_def using set_rstrip set_dropWhileD by fastforce

lemma field_id_eq: "field_id f = strip (takeWhile (\<lambda>c. c \<noteq> CHR ''.'') (rstrip f))"
  by (simp add: field_id_def hd_str_split)

lemma field_id_no_dot: "CHR ''.'' \<notin> set (field_id f)"
proof
  assume "CHR ''.'' \<in> set (field_id f)"
  then have "CHR ''.'' \<in> set (takeWhile (\<lambda>c. c \<noteq> CHR ''.'') (rstrip f))"
    using set_strip unfolding field_id_eq by blast
  then show False by (auto dest: set_takeWhileD)
qed

lemma dropWhile_keeps: "x \<in> set xs \<Longrightarrow> \<not> P x \<Longrightarrow> x \<in> set (dropWhile P xs)"
  by (induction xs) auto

lemma rstrip_keeps: "x \<in> set s \<Longrightarrow> \<not> is_space x \<Longrightarrow> x \<in> set (rstrip s)"
  unfolding rstrip_def using dropWhile_keeps [of x "rev s" is_space] by simp

lemma strip_keeps: "x \<in> set s \<Longrightarrow> \<not> is_space x \<Longrightarrow> x \<in> set (strip s)"
  unfolding strip_def lstrip_def by (simp add: rstrip_keeps dropWhile_keeps)

lemma rstrip_decomp: "\<exists>ws. s = rstrip s @ ws \<and> (\<forall>c \<in> set ws. is_space c)"
proof -
  have "rev s = takeWhile is_space (rev s) @ dropWhile is_space (rev s)" by simp
  then have "s = rev (dropWhile is_space (rev s)) @ rev (takeWhile is_space (rev s))"
    by (metis rev_append rev_rev_ident)
  moreover have "\<forall>c \<in> set (rev (takeWhile is_space (rev s))). is_space c"
    by (auto dest: set_takeWhileD)
  ultimately show ?thesis unfolding rstrip_def by blast
qed

lemma takeWhile_rstrip_keeps:
  assumes "x \<in> set (takeWhile P s)" and "\<not> is_space x"
  shows "x \<in> set (takeWhile P (rstrip s))"
proof -
  obtain ws where s: "s = rstrip s @ ws" and ws: "\<forall>c \<in> set ws. is_space c"
    using rstrip_decomp by blast
  have "x \<in> set (takeWhile P (rstrip s @ ws))" using assms(1) s by simp
  then show ?thesis
  proof (cases "\<forall>c \<in> set (rstrip s). P c")
    case True
    then have tw: "takeWhile P (rstrip s) = rstrip s" by (simp add: takeWhile_eq_all_conv)
    have "x \<notin> set (takeWhile P ws)"
      using ws assms(2) by (auto dest: set_takeWhileD)
    moreover have "x \<in> set (rstrip s) \<or> x \<in> set (takeWhile P ws)"
      using \<open>x \<in> set (takeWhile P (rstrip s @ ws))\<close> True by (simp add: takeWhile_append)
    ultimately have "x \<in> set (rstrip s)" by blast
    then show ?thesis by (simp only: tw)
  next
    case False
    then show ?thesis
      using \<open>x \<in> set (takeWhile P (rstrip s @ ws))\<close>
      by (simp add: takeWhile_append split: if_splits)
  qed
qed

lemma field_id_keeps:
  assumes "x \<in> set (takeWhile (\<lambda>c. c \<noteq> CHR ''.'') f)" and "\<not> is_space x"
  shows "x \<in> set (field_id f)"
  unfolding field_id_eq using assms by (simp add: strip_keeps takeWhile_rstrip_keeps)

lemma slash_not_space: "\<not> is_space CHR ''/''"
  by (simp add: is_space_def)

section \<open>Facts about the lookup\<close>

lemma py_index_error: "py_index xs i = Inl e \<Longrightarrow> e = IndexError"
  by (auto simp: py_index_def split: if_splits)

lemma numpy_where_Nil_iff: "numpy_where arr x = [] \<longleftrightarrow> x \<notin> set arr"
  by (auto simp: numpy_where_def filter_empty_conv in_set_conv_nth)

lemma py_index_where_absent: "x \<notin> set arr \<Longrightarrow> py_index (numpy_where arr x) 0 = Inl IndexError"
  by (simp add: py_index_def numpy_where_Nil_iff)

lemma filter_upt_first:
  assumes "filter P [0..<n] = i # r"
  shows "i < n \<and> P i \<and> (\<forall>k<i. \<not> P k)"
proof -
  have mem: "i \<in> set (filter P [0..<n])" using assms by simp
  then have "i < n" "P i" by auto
  have "sorted (filter P [0..<n])" by (rule sorted_wrt_filter) simp
  then have le: "\<forall>y \<in> set (i # r). i \<le> y" using assms by auto
  have "\<not> P k" if "k < i" for k
  proof
    assume "P k"
    with that \<open>i < n\<close> have "k \<in> set (filter P [0..<n])" by simp
    then have "k \<in> set (i # r)" using assms by simp
    with le have "i \<le> k" by blast
    with that show False by simp
  qed
  with \<open>i < n\<close> \<open>P i\<close> show ?thesis by blast
qed

lemma py_index_where_first:
  assumes "py_index (numpy_where arr x) 0 = Inr i"
  shows "i < length arr \<and> arr ! i = x \<and> x \<notin> set (take i arr)"
proof -
  obtain r where "filter (\<lambda>k. arr ! k = x) [0..<length arr] = i # r"
    using assms by (cases "numpy_where arr x") (auto simp: py_index_def numpy_where_def)
  from filter_upt_first [OF this]
  have "i < length arr" "arr ! i = x" "\<forall>k<i. arr ! k \<noteq> x" by auto
  then show ?thesis by (auto simp: in_set_conv_nth)
qed

lemma first_match_unique: "first_match arr x i \<Longrightarrow> first_match arr x k \<Longrightarrow> i = k"
  unfolding first_match_def
  by (metis in_set_conv_nth length_take min_less_iff_conj nth_take linorder_neqE_nat)

lemma py_index_where_present:
  assumes "x \<in> set arr"
  shows "\<exists>i. py_index (numpy_where arr x) 0 = Inr i \<and> first_match arr x i"
proof -
  from assms have "numpy_where arr x \<noteq> []" by (simp add: numpy_where_Nil_iff)
  then obtain i where i: "py_index (numpy_where arr x) 0 = Inr i"
    by (cases "numpy_where arr x") (auto simp: py_index_def)
  from py_index_where_first [OF i] have "first_match arr x i" by (simp add: first_match_def)
  with i show ?thesis by blast
qed

lemma trial_score_InrD:
  assumes "trial_score scores_plda enrol_id test_id = Inr s"
  shows "\<exists>i j. py_index (numpy_where (modelset scores_plda) enrol_id) 0 = Inr i \<and>
               py_index (numpy_where (segset scores_plda) test_id) 0 = Inr j \<and>
               i < length (scoremat scores_plda) \<and> j < length (scoremat scores_plda ! i) \<and>
               s = scoremat scores_plda ! i ! j"
  using assms
  by (auto simp: trial_score_def mat_index_def py_index_def split: sum.splits if_splits)

lemma trial_score_error: "trial_score scores_plda enrol_id test_id = Inl e \<Longrightarrow> e = IndexError"
  by (auto simp: trial_score_def mat_index_def py_index_def split: if_splits sum.splits)

lemma absent_trial_score:
  assumes "enrol_id \<notin> set (modelset scores_plda) \<or> test_id \<notin> set (segset scores_plda)"
  shows "trial_score scores_plda enrol_id test_id = Inl IndexError"
  using assms
  by (auto simp: trial_score_def py_index_where_absent split: sum.splits dest: py_index_error)

lemma mat_index_ok:
  assumes "score_matrix_ok scores_plda"
    and "i < length (modelset scores_plda)" and "j < length (segset scores_plda)"
  shows "mat_index (scoremat scores_plda) i j = Inr (scoremat scores_plda ! i ! j)"
proof -
  from assms(1,2) have i: "i < length (scoremat scores_plda)" by (simp add: score_matrix_ok_def)
  then have "scoremat scores_plda ! i \<in> set (scoremat scores_plda)" by simp
  with assms(1) have "length (scoremat scores_plda ! i) = length (segset scores_plda)"
    by (simp add: score_matrix_ok_def list_all_iff)
  with i assms(3) show ?thesis by (simp add: mat_index_def py_index_def)
qed

lemma trial_score_total:
  assumes "score_matrix_ok scores_plda"
    and "enrol_id \<in> set (modelset scores_plda)" and "test_id \<in> set (segset scores_plda)"
  shows "\<exists>i j. first_match (modelset scores_plda) enrol_id i \<and>
               first_match (segset scores_plda) test_id j \<and>
               trial_score scores_plda enrol_id test_id = Inr (scoremat scores_plda ! i ! j)"
proof -
  from py_index_where_present [OF assms(2)] obtain i where
    i: "py_index (numpy_where (modelset scores_plda) enrol_id) 0 = Inr i" and
    fi: "first_match (modelset scores_plda) enrol_id i" by blast
  from py_index_where_present [OF assms(3)] obtain j where
    j: "py_index (numpy_where (segset scores_plda) test_id) 0 = Inr j" and
    fj: "first_match (segset scores_plda) test_id j" by blast
  from fi fj have "i < length (modelset scores_plda)" "j < length (segset scores_plda)"
    by (simp_all add: first_match_def)
  from mat_index_ok [OF assms(1) this]
  have "trial_score scores_plda enrol_id test_id = Inr (scoremat scores_plda ! i ! j)"
    by (simp add: trial_score_def i j)
  with fi fj show ?thesis by blast
qed

section \<open>Facts about one line and about the loop\<close>

lemma trial_line_InrD:
  assumes "trial_line scores_plda st line = Inr st'"
  shows "\<exists>lab f1 f2 s.
           line_lab line = Inr lab \<and>
           py_index (str_split CHR '' '' line) 1 = Inr f1 \<and>
           py_index (str_split CHR '' '' line) 2 = Inr f2 \<and>
           trial_score scores_plda (field_id f1) (field_id f2) = Inr s \<and>
           ids st' = ids st @ [field_id f1 @ ''<>'' @ field_id f2] \<and>
           labels st' = labels st @ [lab] \<and>
           positive_scores st' = positive_scores st @ (if lab = 1 then [s] else []) \<and>
           negative_scores st' = negative_scores st @ (if lab = 1 then [] else [s])"
  using assms
  by (auto simp: trial_line_def line_field_def Let_def split: sum.splits if_splits)

lemma found_trial_step:
  assumes "found_trial scores_plda line lab s"
  shows "\<exists>st'. trial_line scores_plda st line = Inr st' \<and>
           labels st' = labels st @ [lab] \<and>
           positive_scores st' = positive_scores st @ (if lab = 1 then [s] else []) \<and>
           negative_scores st' = negative_scores st @ (if lab = 1 then [] else [s])"
  using assms
  by (auto simp: trial_line_def found_trial_def Let_def split: sum.splits)

lemma trial_line_InrD2:
  assumes "trial_line scores_plda st line = Inr st'"
  shows "\<exists>lab s. found_trial scores_plda line lab s \<and>
           labels st' = labels st @ [lab] \<and>
           positive_scores st' = positive_scores st @ (if lab = 1 then [s] else []) \<and>
           negative_scores st' = negative_scores st @ (if lab = 1 then [] else [s])"
  using assms
  by (auto simp: trial_line_def found_trial_def Let_def split: sum.splits if_splits)

lemma line_field_error: "line_field line k = Inl e \<Longrightarrow> e = IndexError"
  by (auto simp: line_field_def py_index_def split: if_splits sum.splits)

lemma trial_line_error:
  assumes "trial_line scores_plda st line = Inl e" and "line_lab line = Inr lab"
  shows "e = IndexError"
  using assms
  by (auto simp: trial_line_def Let_def split: sum.splits if_splits
           dest: line_field_error trial_score_error)

lemma absent_trial_line:
  assumes "absent_trial scores_plda line"
  shows "\<exists>e. trial_line scores_plda st line = Inl e"
  using assms
  by (auto simp: trial_line_def absent_trial_def absent_trial_score split: sum.splits)

lemma trial_loop_absent:
  assumes "line \<in> set gt_lines" and "absent_trial scores_plda line"
  shows "\<exists>e. trial_loop scores_plda st gt_lines = Inl e"
  using assms
proof (induction gt_lines arbitrary: st)
  case Nil
  then show ?case by simp
next
  case (Cons l ls)
  show ?case
  proof (cases "trial_line scores_plda st l")
    case (Inl e)
    then show ?thesis by simp
  next
    case (Inr st')
    with absent_trial_line [of scores_plda l st] have "\<not> absent_trial scores_plda l" by auto
    with Cons.prems have "line \<in> set ls" by auto
    from Cons.IH [OF this Cons.prems(2)] Inr show ?thesis by simp
  qed
qed

lemma trial_loop_error:
  assumes "trial_loop scores_plda st gt_lines = Inl e"
    and "\<forall>l \<in> set gt_lines. \<exists>lab. line_lab l = Inr lab"
  shows "e = IndexError"
  using assms
proof (induction gt_lines arbitrary: st)
  case Nil
  then show ?case by simp
next
  case (Cons l ls)
  then show ?case
    by (cases "trial_line scores_plda st l") (auto dest: trial_line_error)
qed

lemma trial_loop_lists:
  assumes "trial_loop scores_plda st gt_lines = Inr st'"
  shows "\<exists>ts. list_all2 (\<lambda>line t. found_trial scores_plda line (fst t) (snd t)) gt_lines ts \<and>
           labels st' = labels st @ map fst ts \<and>
           positive_scores st' = positive_scores st @ map snd (filter (\<lambda>t. fst t = 1) ts) \<and>
           negative_scores st' = negative_scores st @ map snd (filter (\<lambda>t. fst t \<noteq> 1) ts)"
  using assms
proof (induction gt_lines arbitrary: st)
  case Nil
  then show ?case by simp
next
  case (Cons l ls)
  from Cons.prems obtain st1 where
    step: "trial_line scores_plda st l = Inr st1" and
    rest: "trial_loop scores_plda st1 ls = Inr st'"
    by (auto split: sum.splits)
  from trial_line_InrD2 [OF step] obtain lab s where
    f: "found_trial scores_plda l lab s" and
    l1: "labels st1 = labels st @ [lab]" and
    p1: "positive_scores st1 = positive_scores st @ (if lab = 1 then [s] else [])" and
    n1: "negative_scores st1 = negative_scores st @ (if lab = 1 then [] else [s])"
    by blast
  from Cons.IH [OF rest] obtain ts where
    a: "list_all2 (\<lambda>line t. found_trial scores_plda line (fst t) (snd t)) ls ts" and
    l2: "labels st' = labels st1 @ map fst ts" and
    p2: "positive_scores st' = positive_scores st1 @ map snd (filter (\<lambda>t. fst t = 1) ts)" and
    n2: "negative_scores st' = negative_scores st1 @ map snd (filter (\<lambda>t. fst t \<noteq> 1) ts)"
    by blast
  let ?ts = "(lab, s) # ts"
  have "list_all2 (\<lambda>line t. found_trial scores_plda line (fst t) (snd t)) (l # ls) ?ts"
    using f a by simp
  moreover have "labels st' = labels st @ map fst ?ts" using l1 l2 by simp
  moreover have "positive_scores st' = positive_scores st @ map snd (filter (\<lambda>t. fst t = 1) ?ts)"
    using p1 p2 by simp
  moreover have "negative_scores st' = negative_scores st @ map snd (filter (\<lambda>t. fst t \<noteq> 1) ?ts)"
    using n1 n2 by simp
  ultimately show ?case by blast
qed

lemma trial_loop_found:
  assumes "list_all2 (\<lambda>line t. found_trial scores_plda line (fst t) (snd t)) gt_lines ts"
  shows "\<exists>st'. trial_loop scores_plda st gt_lines = Inr st' \<and>
           labels st' = labels st @ map fst ts \<and>
           positive_scores st' = positive_scores st @ map snd (filter (\<lambda>t. fst t = 1) ts) \<and>
           negative_scores st' = negative_scores st @ map snd (filter (\<lambda>t. fst t \<noteq> 1) ts)"
  using assms
proof (induction gt_lines ts arbitrary: st rule: list_all2_induct)
  case Nil
  then show ?case by simp
next
  case (Cons l ls t ts)
  from found_trial_step [OF Cons.hyps(1), of st] obtain st1 where
    step: "trial_line scores_plda st l = Inr st1" and
    l1: "labels st1 = labels st @ [fst t]" and
    p1: "positive_scores st1 = positive_scores st @ (if fst t = 1 then [snd t] else [])" and
    n1: "negative_scores st1 = negative_scores st @ (if fst t = 1 then [] else [snd t])"
    by blast
  from Cons.IH [of st1] obtain st' where
    rest: "trial_loop scores_plda st1 ls = Inr st'" and
    l2: "labels st' = labels st1 @ map fst ts" and
    p2: "positive_scores st' = positive_scores st1 @ map snd (filter (\<lambda>t. fst t = 1) ts)" and
    n2: "negative_scores st' = negative_scores st1 @ map snd (filter (\<lambda>t. fst t \<noteq> 1) ts)"
    by blast
  have "trial_loop scores_plda st (l # ls) = Inr st'" using step rest by simp
  moreover have "labels st' = labels st @ map fst (t # ts)" using l1 l2 by simp
  moreover have "positive_scores st' =
      positive_scores st @ map snd (filter (\<lambda>t. fst t = 1) (t # ts))" using p1 p2 by simp
  moreover have "negative_scores st' =
      negative_scores st @ map snd (filter (\<lambda>t. fst t \<noteq> 1) (t # ts))" using n1 n2 by simp
  ultimately show ?case by blast
qed

lemma compute_EER_loop:
  assumes "trial_loop scores_plda empty_lists gt_lines = Inr st"
  shows "compute_EER torch_tensor EER scores_plda gt_lines =
     (case EER (torch_tensor (positive_scores st)) (torch_tensor (negative_scores st)) of
        Inl e \<Rightarrow> Inl e
      | Inr (eer, th) \<Rightarrow> Inr eer)"
  using assms by (simp add: compute_EER_def)

lemma listed_trial_selected:
  assumes "score_matrix_ok scores_plda" and "listed_trial scores_plda line"
  shows "\<exists>lab i j. selected_trial scores_plda line lab i j \<and>
           found_trial scores_plda line lab (scoremat scores_plda ! i ! j)"
proof -
  from assms(2) obtain lab enrol_id test_id where
    l: "line_lab line = Inr lab" and e: "line_field line 1 = Inr enrol_id" and
    t: "line_field line 2 = Inr test_id" and
    m: "enrol_id \<in> set (modelset scores_plda)" "test_id \<in> set (segset scores_plda)"
    by (auto simp: listed_trial_def split: sum.splits)
  from trial_score_total [OF assms(1) m] obtain i j where
    "first_match (modelset scores_plda) enrol_id i" "first_match (segset scores_plda) test_id j"
    "trial_score scores_plda enrol_id test_id = Inr (scoremat scores_plda ! i ! j)" by blast
  with l e t have "selected_trial scores_plda line lab i j \<and>
      found_trial scores_plda line lab (scoremat scores_plda ! i ! j)"
    by (simp add: selected_trial_def found_trial_def)
  then show ?thesis by blast
qed

lemma selected_trial_unique:
  assumes "selected_trial scores_plda line lab i j" and "selected_trial scores_plda line lab' i' j'"
  shows "lab = lab' \<and> i = i' \<and> j = j'"
  using assms
  by (auto simp: selected_trial_def split: sum.splits dest: first_match_unique)

lemma listed_trials_selected:
  assumes "score_matrix_ok scores_plda" and "list_all (listed_trial scores_plda) gt_lines"
  shows "\<exists>ts. list_all2 (\<lambda>line t. selected_trial scores_plda line (fst t) (fst (snd t)) (snd (snd t)))
                gt_lines ts \<and>
              list_all2 (\<lambda>line t. found_trial scores_plda line (fst t) (snd t)) gt_lines
                (map (\<lambda>t. (fst t, scoremat scores_plda ! fst (snd t) ! snd (snd t))) ts)"
  using assms(2)
proof (induction gt_lines)
  case Nil
  then show ?case by simp
next
  case (Cons l ls)
  from Cons.prems have "listed_trial scores_plda l" and "list_all (listed_trial scores_plda) ls"
    by simp_all
  from listed_trial_selected [OF assms(1) this(1)] obtain lab i j where
    s: "selected_trial scores_plda l lab i j" and
    f: "found_trial scores_plda l lab (scoremat scores_plda ! i ! j)" by blast
  from Cons.IH [OF \<open>list_all (listed_trial scores_plda) ls\<close>] obtain ts where
    a: "list_all2 (\<lambda>line t. selected_trial scores_plda line (fst t) (fst (snd t)) (snd (snd t))) ls ts"
    and b: "list_all2 (\<lambda>line t. found_trial scores_plda line (fst t) (snd t)) ls
                (map (\<lambda>t. (fst t, scoremat scores_plda ! fst (snd t) ! snd (snd t))) ts)"
    by blast
  let ?ts = "(lab, i, j) # ts"
  have "list_all2 (\<lambda>line t. selected_trial scores_plda line (fst t) (fst (snd t)) (snd (snd t)))
          (l # ls) ?ts" using s a by simp
  moreover have "list_all2 (\<lambda>line t. found_trial scores_plda line (fst t) (snd t)) (l # ls)
                (map (\<lambda>t. (fst t, scoremat scores_plda ! fst (snd t) ! snd (snd t))) ?ts)"
    using f b by simp
  ultimately show ?case by blast
qed

lemma selected_trials_unique:
  assumes "list_all2 (\<lambda>line t. selected_trial scores_plda line (fst t) (fst (snd t)) (snd (snd t)))
             gt_lines ts"
    and "list_all2 (\<lambda>line t. selected_trial scores_plda line (fst t) (fst (snd t)) (snd (snd t)))
             gt_lines ts'"
  shows "ts = ts'"
  using assms
proof (induction gt_lines ts arbitrary: ts' rule: list_all2_induct)
  case Nil
  then show ?case by simp
next
  case (Cons l ls t ts)
  from Cons.prems obtain t' ts2 where
    ts': "ts' = t' # ts2" and
    h: "selected_trial scores_plda l (fst t') (fst (snd t')) (snd (snd t'))" and
    r: "list_all2 (\<lambda>line t. selected_trial scores_plda line (fst t) (fst (snd t)) (snd (snd t)))
          ls ts2"
    by (auto simp: list_all2_Cons1)
  from selected_trial_unique [OF Cons.hyps(1) h] have "t = t'" by (simp add: prod_eq_iff)
  with Cons.IH [OF r] ts' show ?case by simp
qed

lemma filter_nth_position:
  assumes "k < length ts" and "P (ts ! k)"
  shows "map f (filter P ts) ! length (filter P (take k ts)) = f (ts ! k)"
proof -
  have "ts = take k ts @ ts ! k # drop (Suc k) ts" using assms(1) by (rule id_take_nth_drop)
  then have "filter P ts = filter P (take k ts) @ ts ! k # filter P (drop (Suc k) ts)"
    using assms(2) by (metis filter.simps(2) filter_append)
  then have "map f (filter P ts) =
      map f (filter P (take k ts)) @ f (ts ! k) # map f (filter P (drop (Suc k) ts))" by simp
  then show ?thesis by (metis length_map nth_append_length)
qed

text \<open>
  Conversely, for any score matrix: when the loop ends without an exception, every line
  has selected the entry at the first matches of its two identifiers.
\<close>

lemma found_trial_selected:
  assumes "found_trial scores_plda line lab s"
  shows "\<exists>i j. selected_trial scores_plda line lab i j \<and> s = scoremat scores_plda ! i ! j"
proof -
  from assms obtain enrol_id test_id where
    l: "line_lab line = Inr lab" and e: "line_field line 1 = Inr enrol_id" and
    t: "line_field line 2 = Inr test_id" and
    s: "trial_score scores_plda enrol_id test_id = Inr s"
    by (auto simp: found_trial_def split: sum.splits)
  from trial_score_InrD [OF s] obtain i j where
    i: "py_index (numpy_where (modelset scores_plda) enrol_id) 0 = Inr i" and
    j: "py_index (numpy_where (segset scores_plda) test_id) 0 = Inr j" and
    v: "s = scoremat scores_plda ! i ! j"
    by blast
  from py_index_where_first [OF i] have fi: "first_match (modelset scores_plda) enrol_id i"
    by (simp add: first_match_def)
  from py_index_where_first [OF j] have fj: "first_match (segset scores_plda) test_id j"
    by (simp add: first_match_def)
  have "selected_trial scores_plda line lab i j"
    by (simp only: selected_trial_def l e t fi fj sum.case simp_thms)
  with v show ?thesis by blast
qed

lemma found_trials_selected:
  assumes "list_all2 (\<lambda>line t. found_trial scores_plda line (fst t) (snd t)) gt_lines fs"
  shows "\<exists>ts. list_all2 (\<lambda>line t. selected_trial scores_plda line (fst t) (fst (snd t)) (snd (snd t)))
                gt_lines ts \<and>
              fs = map (\<lambda>t. (fst t, scoremat scores_plda ! fst (snd t) ! snd (snd t))) ts"
  using assms
proof (induction gt_lines fs rule: list_all2_induct)
  case Nil
  then show ?case by simp
next
  case (Cons l ls f fs)
  from found_trial_selected [OF Cons.hyps(1)] obtain i j where
    s: "selected_trial scores_plda l (fst f) i j" and v: "snd f = scoremat scores_plda ! i ! j"
    by blast
  from Cons.IH obtain ts where
    a: "list_all2 (\<lambda>line t. selected_trial scores_plda line (fst t) (fst (snd t)) (snd (snd t)))
          ls ts" and
    b: "fs = map (\<lambda>t. (fst t, scoremat scores_plda ! fst (snd t) ! snd (snd t))) ts"
    by (elim exE conjE)
  let ?ts = "(fst f, i, j) # ts"
  have A: "list_all2 (\<lambda>line t. selected_trial scores_plda line (fst t) (fst (snd t)) (snd (snd t)))
          (l # ls) ?ts" using s a by simp
  have B: "f # fs = map (\<lambda>t. (fst t, scoremat scores_plda ! fst (snd t) ! snd (snd t))) ?ts"
    unfolding b by (simp add: prod_eq_iff v)
  show ?case by (rule exI [of _ ?ts]) (rule conjI [OF A B])
qed

lemma trial_loop_selected:
  assumes "trial_loop scores_plda empty_lists gt_lines = Inr st"
  shows "\<exists>ts. list_all2 (\<lambda>line t. selected_trial scores_plda line (fst t) (fst (snd t)) (snd (snd t)))
                gt_lines ts \<and>
              labels st = map fst ts \<and>
              positive_scores st =
                map (\<lambda>t. scoremat scores_plda ! fst (snd t) ! snd (snd t))
                  (filter (\<lambda>t. fst t = 1) ts) \<and>
              negative_scores st =
                map (\<lambda>t. scoremat scores_plda ! fst (snd t) ! snd (snd t))
                  (filter (\<lambda>t. fst t \<noteq> 1) ts)"
proof -
  from trial_loop_lists [OF assms] obtain fs where
    f: "list_all2 (\<lambda>line t. found_trial scores_plda line (fst t) (snd t)) gt_lines fs" and
    lab: "labels st = map fst fs" and
    p: "positive_scores st = map snd (filter (\<lambda>t. fst t = 1) fs)" and
    n: "negative_scores st = map snd (filter (\<lambda>t. fst t \<noteq> 1) fs)"
    by (auto simp: empty_lists_def)
  from found_trials_selected [OF f] obtain ts where
    a: "list_all2 (\<lambda>line t. selected_trial scores_plda line (fst t) (fst (snd t)) (snd (snd t)))
          gt_lines ts" and
    fs: "fs = map (\<lambda>t. (fst t, scoremat scores_plda ! fst (snd t) ! snd (snd t))) ts"
    by (elim exE conjE)
  have A: "labels st = map fst ts" unfolding lab fs by (simp add: comp_def)
  have B: "positive_scores st =
      map (\<lambda>t. scoremat scores_plda ! fst (snd t) ! snd (snd t)) (filter (\<lambda>t. fst t = 1) ts)"
    unfolding p fs by (simp add: filter_map comp_def)
  have C: "negative_scores st =
      map (\<lambda>t. scoremat scores_plda ! fst (snd t) ! snd (snd t)) (filter (\<lambda>t. fst t \<noteq> 1) ts)"
    unfolding n fs by (simp add: filter_map comp_def)
  show ?thesis by (rule exI [of _ ts]) (intro conjI a A B C)
qed

section \<open>Evaluations of the examples\<close>

lemma ex_line_step:
  "trial_line ex_scores empty_lists ex_line =
     Inr \<lparr>ids = [''id2/v/00007<>id3/w/00002''], labels = [1],
          positive_scores = [21], negative_scores = []\<rparr>"
  by code_simp

lemma ex_lines_loop:
  "trial_loop ex_scores empty_lists ex_lines =
     Inr \<lparr>ids = [''id2/v/00007<>id3/w/00002'', ''id1/v/00001<>id4/w/00005'',
                 ''id1/v/00001<>id3/w/00002'', ''id2/v/00007<>id4/w/00005''],
          labels = [1, 0, 2, - 1], positive_scores = [21],
          negative_scores = [12, 11, 22]\<rparr>"
  by code_simp

lemma ex_lines_found:
  "list_all2 (\<lambda>line t. found_trial ex_scores line (fst t) (snd t))
     ex_lines [(1, 21), (0, 12), (2, 11), (- 1, 22)]"
  by code_simp

lemma ex_binary_found:
  "list_all2 (\<lambda>line t. found_trial ex_scores line (fst t) (snd t))
     ex_binary_lines [(1, 21), (0, 12), (0, 22), (1, 11)]"
  by code_simp

lemma ex_dup_hyps:
  "score_matrix_ok ex_dup_scores"
  "list_all (listed_trial ex_dup_scores) ex_dup_lines"
  by code_simp+

lemma ex_dup_selected:
  "list_all2 (\<lambda>line t. selected_trial ex_dup_scores line (fst t) (fst (snd t)) (snd (snd t)))
     ex_dup_lines [(0, 1, 1), (1, 2, 1), (1, 1, 0)]"
  by code_simp

lemma ex_absent_labels:
  "map line_lab (ex_lines @ [ex_absent_line]) = [Inr 1, Inr 0, Inr 2, Inr (- 1), Inr 1]"
  by code_simp

lemma ex_absent_hyps:
  "ex_absent_line \<in> set (ex_lines @ [ex_absent_line]) \<and>
   absent_trial ex_scores ex_absent_line \<and>
   (\<forall>l \<in> set (ex_lines @ [ex_absent_line]). \<exists>lab. line_lab l = Inr lab)"
proof -
  have "\<exists>lab. line_lab l = Inr lab" if "l \<in> set (ex_lines @ [ex_absent_line])" for l
  proof -
    from that have "line_lab l \<in> set (map line_lab (ex_lines @ [ex_absent_line]))"
      by (simp only: set_map image_eqI)
    then show ?thesis unfolding ex_absent_labels by auto
  qed
  moreover have "absent_trial ex_scores ex_absent_line" by code_simp
  ultimately show ?thesis by simp
qed

section \<open>Properties of \<^verbatim>\<open>compute_EER\<close>\<close>

text \<open>
  C1, as amended. For a line that the loop body accepts, the enrollment and test
  identifiers that are looked up in \<^verbatim>\<open>modelset\<close> and \<^verbatim>\<open>segset\<close> are the second
  and third space-separated fields with trailing white space removed, cut at the first
  dot, and with surrounding white space removed. The identifier holds no dot, and every
  path separator that stands before the first dot of the field is kept.
\<close>

theorem trial_ids_cut_at_first_dot:
  assumes "trial_line scores_plda st line = Inr st'"
  shows "\<exists>f1 f2 s.
           py_index (str_split CHR '' '' line) 1 = Inr f1 \<and>
           py_index (str_split CHR '' '' line) 2 = Inr f2 \<and>
           trial_score scores_plda (field_id f1) (field_id f2) = Inr s \<and>
           (\<forall>f \<in> {f1, f2}.
              field_id f = strip (takeWhile (\<lambda>c. c \<noteq> CHR ''.'') (rstrip f)) \<and>
              CHR ''.'' \<notin> set (field_id f) \<and>
              (CHR ''/'' \<in> set (takeWhile (\<lambda>c. c \<noteq> CHR ''.'') f) \<longrightarrow>
               CHR ''/'' \<in> set (field_id f)))"
proof -
  obtain f1 f2 s where
    "py_index (str_split CHR '' '' line) 1 = Inr f1"
    "py_index (str_split CHR '' '' line) 2 = Inr f2"
    "trial_score scores_plda (field_id f1) (field_id f2) = Inr s"
    using trial_line_InrD [OF assms] by blast
  moreover have "field_id f = strip (takeWhile (\<lambda>c. c \<noteq> CHR ''.'') (rstrip f)) \<and>
      CHR ''.'' \<notin> set (field_id f) \<and>
      (CHR ''/'' \<in> set (takeWhile (\<lambda>c. c \<noteq> CHR ''.'') f) \<longrightarrow> CHR ''/'' \<in> set (field_id f))" for f
    using field_id_eq field_id_no_dot field_id_keeps [OF _ slash_not_space] by blast
  ultimately show ?thesis by blast
qed

theorem trial_ids_cut_at_first_dot_witness:
  "trial_line ex_scores empty_lists ex_line =
     Inr \<lparr>ids = [''id2/v/00007<>id3/w/00002''], labels = [1],
          positive_scores = [21], negative_scores = []\<rparr> \<and>
   (\<exists>f1 f2 s.
      py_index (str_split CHR '' '' ex_line) 1 = Inr f1 \<and>
      py_index (str_split CHR '' '' ex_line) 2 = Inr f2 \<and>
      trial_score ex_scores (field_id f1) (field_id f2) = Inr s \<and>
      (\<forall>f \<in> {f1, f2}.
         field_id f = strip (takeWhile (\<lambda>c. c \<noteq> CHR ''.'') (rstrip f)) \<and>
         CHR ''.'' \<notin> set (field_id f) \<and>
         (CHR ''/'' \<in> set (takeWhile (\<lambda>c. c \<noteq> CHR ''.'') f) \<longrightarrow>
          CHR ''/'' \<in> set (field_id f))))"
  using trial_ids_cut_at_first_dot [OF ex_line_step] ex_line_step by blast

text \<open>
  C1 as stated fails: the identifier of a file reference with a directory part keeps
  the path separators, and a score matrix that lists the bare file names is not matched.
\<close>

theorem path_separators_kept_counterexample:
  "line_field ex_line 1 = Inr ''id2/v/00007'' \<and>
   line_field ex_line 2 = Inr ''id3/w/00002'' \<and>
   CHR ''/'' \<in> set ''id2/v/00007'' \<and>
   trial_line ex_bare_scores empty_lists ex_line = Inl IndexError"
  by code_simp

text \<open>
  C2, as amended. If some line of the trial file has its three fields and its
  enrollment identifier is not in \<^verbatim>\<open>modelset\<close> or its test identifier is not in
  \<^verbatim>\<open>segset\<close>, then \<^verbatim>\<open>compute_EER\<close> raises and returns no error rate; the trial
  is not skipped. When the label of every line parses, the exception is the
  \<^verbatim>\<open>IndexError\<close> of indexing an empty result of \<^verbatim>\<open>numpy.where\<close>.
\<close>

theorem absent_trial_raises:
  assumes "line \<in> set gt_lines" and "absent_trial scores_plda line"
  shows "(\<exists>e. compute_EER torch_tensor EER scores_plda gt_lines = Inl e) \<and>
         ((\<forall>l \<in> set gt_lines. \<exists>lab. line_lab l = Inr lab) \<longrightarrow>
          compute_EER torch_tensor EER scores_plda gt_lines = Inl IndexError)"
proof -
  obtain e where e: "trial_loop scores_plda empty_lists gt_lines = Inl e"
    using trial_loop_absent [OF assms] by blast
  then have c: "compute_EER torch_tensor EER scores_plda gt_lines = Inl e"
    by (simp add: compute_EER_def)
  moreover have "e = IndexError" if "\<forall>l \<in> set gt_lines. \<exists>lab. line_lab l = Inr lab"
    using trial_loop_error [OF e that] .
  ultimately show ?thesis by blast
qed

theorem absent_trial_raises_witness:
  "absent_trial ex_scores ex_absent_line \<and>
   map line_lab (ex_lines @ [ex_absent_line]) = [Inr 1, Inr 0, Inr 2, Inr (- 1), Inr 1] \<and>
   compute_EER ex_tensor ex_EER ex_scores (ex_lines @ [ex_absent_line]) = Inl IndexError"
  using absent_trial_raises
    [where line = ex_absent_line and gt_lines = "ex_lines @ [ex_absent_line]"
       and scores_plda = ex_scores and torch_tensor = ex_tensor and EER = ex_EER]
    ex_absent_hyps ex_absent_labels by blast

text \<open>
  C2 as stated fails: there is no exception of its own for a trial that is not found.
  The same \<^verbatim>\<open>IndexError\<close> is raised for a line with too few fields, and a line
  with an absent identifier and a label that does not parse raises \<^verbatim>\<open>ValueError\<close>.
\<close>

theorem absent_trial_error_counterexample:
  "absent_trial ex_scores ex_badlabel_absent_line \<and>
   compute_EER ex_tensor ex_EER ex_scores [ex_badlabel_absent_line] = Inl ValueError \<and>
   absent_trial ex_scores ex_absent_line \<and>
   compute_EER ex_tensor ex_EER ex_scores [ex_absent_line] = Inl IndexError \<and>
   compute_EER ex_tensor ex_EER ex_scores [''1 id2/v/00007.wav''] = Inl IndexError"
  by code_simp

text \<open>
  C3, as amended. When every trial is found and \<^verbatim>\<open>EER\<close> returns the pair
  \<open>(eer, th)\<close> for the positive and the negative scores, \<^verbatim>\<open>compute_EER\<close> returns
  \<open>eer\<close> alone; the threshold is dropped.
\<close>

theorem compute_EER_reports_eer_only:
  assumes "trial_loop scores_plda empty_lists gt_lines = Inr st"
    and "EER (torch_tensor (positive_scores st)) (torch_tensor (negative_scores st)) = Inr (eer, th)"
  shows "compute_EER torch_tensor EER scores_plda gt_lines = Inr eer"
  using assms by (simp add: compute_EER_def)

theorem compute_EER_reports_eer_only_witness:
  "ex_EER (ex_tensor [21]) (ex_tensor [12, 11, 22]) = Inr (1, 3) \<and>
   compute_EER ex_tensor ex_EER ex_scores ex_lines = Inr 1"
proof -
  have e: "ex_EER (ex_tensor [21]) (ex_tensor [12, 11, 22]) = Inr (1, 3)"
    by (simp add: ex_EER_def ex_tensor_def)
  show ?thesis
    using compute_EER_reports_eer_only
      [OF ex_lines_loop, where EER = ex_EER and torch_tensor = ex_tensor and eer = 1 and th = 3] e
    by simp
qed

text \<open>
  C3 as stated fails: two versions of \<^verbatim>\<open>EER\<close> that compute different thresholds
  for the same trials, one match and three non-matches, give the same result of
  \<^verbatim>\<open>compute_EER\<close>, so the threshold is not reported.
\<close>

theorem threshold_not_reported_counterexample:
  "ex_EER (ex_tensor [21]) (ex_tensor [12, 11, 22]) = Inr (1, 3) \<and>
   ex_EER2 (ex_tensor [21]) (ex_tensor [12, 11, 22]) = Inr (1, 7) \<and>
   compute_EER ex_tensor ex_EER ex_scores ex_lines = Inr 1 \<and>
   compute_EER ex_tensor ex_EER2 ex_scores ex_lines = Inr 1"
  by code_simp

text \<open>
  C4. When the score matrix has a row for every model and a column for every segment,
  and every line of the trial file has a label that parses and identifiers that occur
  in \<^verbatim>\<open>modelset\<close> and in \<^verbatim>\<open>segset\<close>, the loop ends without an exception and
  every trial contributes the entry of the score matrix at the first index of
  \<^verbatim>\<open>modelset\<close> that holds its enrollment identifier and the first index of
  \<^verbatim>\<open>segset\<close> that holds its test identifier: the identifier does not occur before
  that index, and an occurrence after it is not read. These entries are the scores that
  \<^verbatim>\<open>compute_EER\<close> hands to \<^verbatim>\<open>EER\<close>.
\<close>

theorem first_occurrence_selected:
  assumes "score_matrix_ok scores_plda" and "list_all (listed_trial scores_plda) gt_lines"
  shows "\<exists>ts st.
           list_all2 (\<lambda>line t. selected_trial scores_plda line (fst t) (fst (snd t)) (snd (snd t)))
             gt_lines ts \<and>
           trial_loop scores_plda empty_lists gt_lines = Inr st \<and>
           labels st = map fst ts \<and>
           positive_scores st =
             map (\<lambda>t. scoremat scores_plda ! fst (snd t) ! snd (snd t))
               (filter (\<lambda>t. fst t = 1) ts) \<and>
           negative_scores st =
             map (\<lambda>t. scoremat scores_plda ! fst (snd t) ! snd (snd t))
               (filter (\<lambda>t. fst t \<noteq> 1) ts) \<and>
           compute_EER torch_tensor EER scores_plda gt_lines =
             (case EER (torch_tensor (positive_scores st)) (torch_tensor (negative_scores st)) of
                Inl e \<Rightarrow> Inl e
              | Inr (eer, th) \<Rightarrow> Inr eer)"
proof -
  let ?f = "\<lambda>t. (fst t, scoremat scores_plda ! fst (snd t) ! snd (snd t))"
  from listed_trials_selected [OF assms] obtain ts where
    a: "list_all2 (\<lambda>line t. selected_trial scores_plda line (fst t) (fst (snd t)) (snd (snd t)))
          gt_lines ts" and
    b: "list_all2 (\<lambda>line t. found_trial scores_plda line (fst t) (snd t)) gt_lines (map ?f ts)"
    by blast
  from trial_loop_found [OF b, of empty_lists] obtain st where
    l: "trial_loop scores_plda empty_lists gt_lines = Inr st" and
    lab: "labels st = map fst (map ?f ts)" and
    p: "positive_scores st = map snd (filter (\<lambda>t. fst t = 1) (map ?f ts))" and
    n: "negative_scores st = map snd (filter (\<lambda>t. fst t \<noteq> 1) (map ?f ts))"
    by (auto simp: empty_lists_def)
  have "labels st = map fst ts" using lab by (simp add: comp_def)
  moreover have "positive_scores st =
      map (\<lambda>t. scoremat scores_plda ! fst (snd t) ! snd (snd t)) (filter (\<lambda>t. fst t = 1) ts)"
    using p by (simp add: filter_map comp_def)
  moreover have "negative_scores st =
      map (\<lambda>t. scoremat scores_plda ! fst (snd t) ! snd (snd t)) (filter (\<lambda>t. fst t \<noteq> 1) ts)"
    using n by (simp add: filter_map comp_def)
  moreover note compute_EER_loop [OF l, of torch_tensor EER] a l
  ultimately show ?thesis by blast
qed

theorem first_occurrence_selected_witness:
  "score_matrix_ok ex_dup_scores \<and>
   list_all (listed_trial ex_dup_scores) ex_dup_lines \<and>
   list_all2 (\<lambda>line t. selected_trial ex_dup_scores line (fst t) (fst (snd t)) (snd (snd t)))
     ex_dup_lines [(0, 1, 1), (1, 2, 1), (1, 1, 0)] \<and>
   modelset ex_dup_scores ! 3 = modelset ex_dup_scores ! 1 \<and>
   segset ex_dup_scores ! 2 = segset ex_dup_scores ! 1 \<and>
   (\<exists>st. trial_loop ex_dup_scores empty_lists ex_dup_lines = Inr st \<and>
      labels st = [0, 1, 1] \<and> positive_scores st = [32, 21] \<and> negative_scores st = [22]) \<and>
   compute_EER ex_tensor ex_EER ex_dup_scores ex_dup_lines = Inr 2"
proof -
  have dup: "modelset ex_dup_scores ! 3 = modelset ex_dup_scores ! 1"
    "segset ex_dup_scores ! 2 = segset ex_dup_scores ! 1"
    by (simp_all add: ex_dup_scores_def)
  have m: "scoremat ex_dup_scores = [[11, 12, 13], [21, 22, 23], [31, 32, 33], [41, 42, 43]]"
    by (simp add: ex_dup_scores_def)
  from first_occurrence_selected [OF ex_dup_hyps, of ex_tensor ex_EER] obtain ts st where
    a: "list_all2 (\<lambda>line t. selected_trial ex_dup_scores line (fst t) (fst (snd t)) (snd (snd t)))
          ex_dup_lines ts" and
    l: "trial_loop ex_dup_scores empty_lists ex_dup_lines = Inr st" and
    lab: "labels st = map fst ts" and
    p: "positive_scores st =
          map (\<lambda>t. scoremat ex_dup_scores ! fst (snd t) ! snd (snd t))
            (filter (\<lambda>t. fst t = 1) ts)" and
    n: "negative_scores st =
          map (\<lambda>t. scoremat ex_dup_scores ! fst (snd t) ! snd (snd t))
            (filter (\<lambda>t. fst t \<noteq> 1) ts)" and
    c: "compute_EER ex_tensor ex_EER ex_dup_scores ex_dup_lines =
          (case ex_EER (ex_tensor (positive_scores st)) (ex_tensor (negative_scores st)) of
             Inl e \<Rightarrow> Inl e
           | Inr (eer, th) \<Rightarrow> Inr eer)"
    by blast
  have ts: "ts = [(0, 1, 1), (1, 2, 1), (1, 1, 0)]"
    by (rule selected_trials_unique [OF a ex_dup_selected])
  have lab': "labels st = [0, 1, 1]" using lab unfolding ts by simp
  have p': "positive_scores st = [32, 21]" using p unfolding ts m by simp
  have n': "negative_scores st = [22]" using n unfolding ts m by simp
  have c': "compute_EER ex_tensor ex_EER ex_dup_scores ex_dup_lines = Inr 2"
    unfolding c p' n' by (simp add: ex_EER_def ex_tensor_def)
  have "\<exists>st. trial_loop ex_dup_scores empty_lists ex_dup_lines = Inr st \<and>
      labels st = [0, 1, 1] \<and> positive_scores st = [32, 21] \<and> negative_scores st = [22]"
    using l lab' p' n' by blast
  with ex_dup_hyps ex_dup_selected dup c' show ?thesis by (intro conjI)
qed

text \<open>
  C8. When every line of the trial file is a found trial and every label is 1 or 0, as
  the format of the trial file has it, the loop ends without an exception; the positive
  scores are the scores of the trials with label 1, in order, and the negative scores
  are the scores of the trials with label 0, in order. Every trial contributes its score
  once, to one of the two lists, and the two lists are what \<^verbatim>\<open>compute_EER\<close> hands
  to \<^verbatim>\<open>EER\<close>.
\<close>

theorem scores_partitioned_by_label:
  assumes "list_all2 (\<lambda>line t. found_trial scores_plda line (fst t) (snd t)) gt_lines ts"
    and "list_all (\<lambda>t. fst t = 1 \<or> fst t = 0) ts"
  shows "\<exists>st. trial_loop scores_plda empty_lists gt_lines = Inr st \<and>
           labels st = map fst ts \<and>
           positive_scores st = map snd (filter (\<lambda>t. fst t = 1) ts) \<and>
           negative_scores st = map snd (filter (\<lambda>t. fst t = 0) ts) \<and>
           mset (positive_scores st) + mset (negative_scores st) = mset (map snd ts) \<and>
           compute_EER torch_tensor EER scores_plda gt_lines =
             (case EER (torch_tensor (positive_scores st)) (torch_tensor (negative_scores st)) of
                Inl e \<Rightarrow> Inl e
              | Inr (eer, th) \<Rightarrow> Inr eer)"
proof -
  from trial_loop_found [OF assms(1), of empty_lists] obtain st where
    l: "trial_loop scores_plda empty_lists gt_lines = Inr st" and
    lab: "labels st = map fst ts" and
    p: "positive_scores st = map snd (filter (\<lambda>t. fst t = 1) ts)" and
    n: "negative_scores st = map snd (filter (\<lambda>t. fst t \<noteq> 1) ts)"
    by (auto simp: empty_lists_def)
  have "filter (\<lambda>t. fst t \<noteq> 1) ts = filter (\<lambda>t. fst t = 0) ts"
    using assms(2) by (intro filter_cong) (auto simp: list_all_iff)
  with n have n0: "negative_scores st = map snd (filter (\<lambda>t. fst t = 0) ts)" by simp
  have "mset (filter (\<lambda>t. fst t = 1) ts) + mset (filter (\<lambda>t. fst t \<noteq> 1) ts) = mset ts"
    by simp
  then have "mset (map snd (filter (\<lambda>t. fst t = 1) ts)) +
      mset (map snd (filter (\<lambda>t. fst t \<noteq> 1) ts)) = mset (map snd ts)"
    by (metis mset_append map_append mset_map)
  with p n have u: "mset (positive_scores st) + mset (negative_scores st) = mset (map snd ts)"
    by simp
  note compute_EER_loop [OF l, of torch_tensor EER]
  with l lab p n0 u show ?thesis by blast
qed

theorem scores_partitioned_by_label_witness:
  "list_all2 (\<lambda>line t. found_trial ex_scores line (fst t) (snd t))
     ex_binary_lines [(1, 21), (0, 12), (0, 22), (1, 11)] \<and>
   (\<exists>st. trial_loop ex_scores empty_lists ex_binary_lines = Inr st \<and>
      labels st = [1, 0, 0, 1] \<and> positive_scores st = [21, 11] \<and>
      negative_scores st = [12, 22]) \<and>
   compute_EER ex_tensor ex_EER ex_scores ex_binary_lines = Inr 2"
proof -
  have b: "list_all (\<lambda>t. fst t = 1 \<or> fst t = 0) [(1 :: int, 21 :: int), (0, 12), (0, 22), (1, 11)]"
    by simp
  from scores_partitioned_by_label [OF ex_binary_found b, of ex_tensor ex_EER] obtain st where
    l: "trial_loop ex_scores empty_lists ex_binary_lines = Inr st" and
    lab: "labels st = map fst [(1 :: int, 21 :: int), (0, 12), (0, 22), (1, 11)]" and
    p: "positive_scores st =
          map snd (filter (\<lambda>t. fst t = 1) [(1 :: int, 21 :: int), (0, 12), (0, 22), (1, 11)])" and
    n: "negative_scores st =
          map snd (filter (\<lambda>t. fst t = 0) [(1 :: int, 21 :: int), (0, 12), (0, 22), (1, 11)])" and
    c: "compute_EER ex_tensor ex_EER ex_scores ex_binary_lines =
          (case ex_EER (ex_tensor (positive_scores st)) (ex_tensor (negative_scores st)) of
             Inl e \<Rightarrow> Inl e
           | Inr (eer, th) \<Rightarrow> Inr eer)"
    by blast
  have lab': "labels st = [1, 0, 0, 1]" using lab by simp
  have p': "positive_scores st = [21, 11]" using p by simp
  have n': "negative_scores st = [12, 22]" using n by simp
  have c': "compute_EER ex_tensor ex_EER ex_scores ex_binary_lines = Inr 2"
    unfolding c p' n' by (simp add: ex_EER_def ex_tensor_def)
  have "\<exists>st. trial_loop ex_scores empty_lists ex_binary_lines = Inr st \<and>
      labels st = [1, 0, 0, 1] \<and> positive_scores st = [21, 11] \<and> negative_scores st = [12, 22]"
    using l lab' p' n' by blast
  with ex_binary_found c' show ?thesis by (intro conjI)
qed

text \<open>
  C9. When every line of the trial file is a found trial and the trial at position
  \<open>k\<close> has a label other than 1, in particular one that is neither 0 nor 1, the line
  is not rejected: the loop ends without an exception, the label is recorded as it is,
  and the score of the trial is in the negative scores, right after the scores of the
  earlier trials with a label other than 1. The positive scores are those of the trials
  with label 1, and \<^verbatim>\<open>compute_EER\<close> returns what \<^verbatim>\<open>EER\<close> makes of the two lists.
\<close>

theorem other_labels_are_negative:
  assumes "list_all2 (\<lambda>line t. found_trial scores_plda line (fst t) (snd t)) gt_lines ts"
    and "k < length ts" and "fst (ts ! k) \<noteq> 1"
  shows "\<exists>st. trial_loop scores_plda empty_lists gt_lines = Inr st \<and>
           labels st ! k = fst (ts ! k) \<and>
           positive_scores st = map snd (filter (\<lambda>t. fst t = 1) ts) \<and>
           negative_scores st = map snd (filter (\<lambda>t. fst t \<noteq> 1) ts) \<and>
           snd (ts ! k) \<in> set (negative_scores st) \<and>
           negative_scores st ! length (filter (\<lambda>t. fst t \<noteq> 1) (take k ts)) = snd (ts ! k) \<and>
           compute_EER torch_tensor EER scores_plda gt_lines =
             (case EER (torch_tensor (positive_scores st)) (torch_tensor (negative_scores st)) of
                Inl e \<Rightarrow> Inl e
              | Inr (eer, th) \<Rightarrow> Inr eer)"
proof -
  from trial_loop_found [OF assms(1), of empty_lists] obtain st where
    l: "trial_loop scores_plda empty_lists gt_lines = Inr st" and
    lab: "labels st = map fst ts" and
    p: "positive_scores st = map snd (filter (\<lambda>t. fst t = 1) ts)" and
    n: "negative_scores st = map snd (filter (\<lambda>t. fst t \<noteq> 1) ts)"
    by (auto simp: empty_lists_def)
  have k: "labels st ! k = fst (ts ! k)" using lab assms(2) by simp
  have "ts ! k \<in> set (filter (\<lambda>t. fst t \<noteq> 1) ts)" using assms(2,3) by simp
  then have s: "snd (ts ! k) \<in> set (negative_scores st)" unfolding n by simp
  have i: "negative_scores st ! length (filter (\<lambda>t. fst t \<noteq> 1) (take k ts)) = snd (ts ! k)"
    unfolding n using assms(2,3) by (rule filter_nth_position)
  note compute_EER_loop [OF l, of torch_tensor EER]
  with l k p n s i show ?thesis by blast
qed

theorem other_labels_are_negative_witness:
  "list_all2 (\<lambda>line t. found_trial ex_scores line (fst t) (snd t))
     ex_lines [(1, 21), (0, 12), (2, 11), (- 1, 22)] \<and>
   (\<exists>st. trial_loop ex_scores empty_lists ex_lines = Inr st \<and>
      labels st ! 3 = - 1 \<and> positive_scores st = [21] \<and>
      negative_scores st = [12, 11, 22] \<and> negative_scores st ! 2 = 22) \<and>
   compute_EER ex_tensor ex_EER ex_scores ex_lines = Inr 1"
proof -
  let ?ts = "[(1 :: int, 21 :: int), (0, 12), (2, 11), (- 1, 22)]"
  have k: "3 < length ?ts" "fst (?ts ! 3) \<noteq> 1" by simp_all
  from other_labels_are_negative [OF ex_lines_found k, of ex_tensor ex_EER] obtain st where
    l: "trial_loop ex_scores empty_lists ex_lines = Inr st" and
    lab: "labels st ! 3 = fst (?ts ! 3)" and
    p: "positive_scores st = map snd (filter (\<lambda>t. fst t = 1) ?ts)" and
    n: "negative_scores st = map snd (filter (\<lambda>t. fst t \<noteq> 1) ?ts)" and
    i: "negative_scores st ! length (filter (\<lambda>t. fst t \<noteq> 1) (take 3 ?ts)) = snd (?ts ! 3)" and
    c: "compute_EER ex_tensor ex_EER ex_scores ex_lines =
          (case ex_EER (ex_tensor (positive_scores st)) (ex_tensor (negative_scores st)) of
             Inl e \<Rightarrow> Inl e
           | Inr (eer, th) \<Rightarrow> Inr eer)"
    by blast
  have lab': "labels st ! 3 = - 1" using lab by simp
  have p': "positive_scores st = [21]" using p by simp
  have n': "negative_scores st = [12, 11, 22]" using n by simp
  have i': "negative_scores st ! 2 = 22" using i by (simp add: numeral_2_eq_2)
  have c': "compute_EER ex_tensor ex_EER ex_scores ex_lines = Inr 1"
    unfolding c p' n' by (simp add: ex_EER_def ex_tensor_def)
  have "\<exists>st. trial_loop ex_scores empty_lists ex_lines = Inr st \<and>
      labels st ! 3 = - 1 \<and> positive_scores st = [21] \<and>
      negative_scores st = [12, 11, 22] \<and> negative_scores st ! 2 = 22"
    using l lab' p' n' i' by blast
  with ex_lines_found c' show ?thesis by (intro conjI)
qed

section \<open>Facts about arrays\<close>

lemma prod_list_squeezed: "prod_list (filter (\<lambda>n. n \<noteq> Suc 0) r) = prod_list r"
  by (induction r) auto

lemma upt_split_shift: "[0..<n + m] = [0..<n] @ map (\<lambda>j. n + j) [0..<m]"
proof -
  have "map (\<lambda>j. n + j) [0..<m] = map (\<lambda>j. j + n) [0..<m]"
    by (rule map_cong) simp_all
  also have "\<dots> = [n..<m + n]" by (rule map_add_upt)
  finally have "map (\<lambda>j. n + j) [0..<m] = [n..<n + m]" by (simp only: add.commute)
  moreover have "[0..<n + m] = [0..<n] @ [n..<n + m]"
    by (rule upt_add_eq_append) simp
  ultimately show ?thesis by simp
qed

lemma rows_squeeze:
  assumes "shape t = b # r" and "b \<noteq> 1"
  shows "rows (squeeze t) = rows t"
  using assms by (simp add: rows_def squeeze_def prod_list_squeezed)

lemma length_rows: "shape t = n # r \<Longrightarrow> length (rows t) = n"
  by (simp add: rows_def)

lemma take_drop_chunk_left:
  assumes "k < n" and "length xs = n * d"
  shows "take d (drop (k * d) (xs @ ys)) = take d (drop (k * d) xs)"
proof -
  have "Suc k * d \<le> n * d" using assms(1) by (intro mult_le_mono1) simp
  then have "k * d + d \<le> length xs" using assms(2) by simp
  then show ?thesis by simp
qed

lemma take_drop_chunk_right:
  assumes "length xs = n * d"
  shows "take d (drop ((n + j) * d) (xs @ ys)) = take d (drop (j * d) ys)"
  using assms by (simp add: add_mult_distrib)

lemma rows_concatenate:
  assumes c: "concatenate a x = Inr c"
    and a: "shape a = [n, d]" "length (data a) = n * d"
  shows "\<exists>m. shape x = [m, d] \<and> shape c = [n + m, d] \<and> data c = data a @ data x \<and>
             rows c = rows a @ rows x"
proof -
  from c a(1) obtain m where x: "shape x = [m, d]" and
    sc: "shape c = [n + m, d]" and dc: "data c = data a @ data x"
    by (auto simp: concatenate_def split: list.splits if_splits)
  let ?f = "\<lambda>k. take d (drop (k * d) (data a @ data x))"
  have "map ?f [0..<n + m] = map ?f [0..<n] @ map ?f (map (\<lambda>j. n + j) [0..<m])"
    by (simp only: upt_split_shift map_append)
  moreover have "map ?f [0..<n] = map (\<lambda>k. take d (drop (k * d) (data a))) [0..<n]"
  proof (rule map_cong [OF refl])
    fix k assume "k \<in> set [0..<n]"
    then have "k < n" by simp
    then show "?f k = take d (drop (k * d) (data a))"
      using a(2) by (rule take_drop_chunk_left)
  qed
  moreover have "map ?f (map (\<lambda>j. n + j) [0..<m]) =
                 map (\<lambda>j. take d (drop (j * d) (data x))) [0..<m]"
    unfolding map_map comp_def using a(2) by (simp only: take_drop_chunk_right)
  ultimately have "map ?f [0..<n + m] =
      map (\<lambda>k. take d (drop (k * d) (data a))) [0..<n] @
      map (\<lambda>j. take d (drop (j * d) (data x))) [0..<m]"
    by (simp only:)
  then have "rows c = rows a @ rows x"
    using a(1) x sc dc by (simp add: rows_def)
  with x sc dc show ?thesis by blast
qed

lemma numpy_empty_rows: "rows (numpy_empty d) = []"
  by (simp add: rows_def numpy_empty_def)

section \<open>Facts about the construction of a stat object\<close>

lemma emb_batch_step:
  assumes ok: "emb_shape_ok batch_ids t"
    and c: "concatenate a (squeeze t) = Inr c"
    and a: "shape a = [n, d]" "length (data a) = n * d"
  shows "shape c = [n + length batch_ids, d] \<and> length (data c) = (n + length batch_ids) * d \<and>
         rows c = rows a @ rows t \<and> length (rows t) = length batch_ids"
proof -
  from rows_concatenate [OF c a] obtain m where
    x: "shape (squeeze t) = [m, d]" and sc: "shape c = [n + m, d]" and
    dc: "data c = data a @ data (squeeze t)" and rc: "rows c = rows a @ rows (squeeze t)"
    by blast
  from ok obtain b r where t: "shape t = b # r" and b: "b = length batch_ids"
    and len: "length (data t) = b * prod_list r"
    by (auto simp: emb_shape_ok_def split: list.splits)
  have ne: "b \<noteq> 1"
  proof
    assume b1: "b = 1"
    from ok t consider d' where "r = [d']" | d' where "r = [1, d']"
      by (auto simp: emb_shape_ok_def split: list.splits)
    then have "length (filter (\<lambda>n. n \<noteq> 1) r) \<le> 1"
      by cases simp_all
    moreover have "shape (squeeze t) = filter (\<lambda>n. n \<noteq> 1) r"
      using t b1 by (simp add: squeeze_def)
    ultimately have "length (shape (squeeze t)) \<le> 1" by simp
    moreover have "length (shape (squeeze t)) = 2" by (simp only: x) simp
    ultimately show False by simp
  qed
  then have sq: "shape (squeeze t) = b # filter (\<lambda>n. n \<noteq> 1) r"
    using t by (simp add: squeeze_def)
  with x have m: "m = b" and r: "filter (\<lambda>n. n \<noteq> 1) r = [d]" by simp_all
  have "prod_list r = d" using prod_list_squeezed [of r] r by simp
  then have "length (data (squeeze t)) = b * d" using len by (simp add: squeeze_def)
  then have "length (data c) = (n + length batch_ids) * d"
    using dc a(2) b by (simp add: add_mult_distrib)
  moreover have "rows (squeeze t) = rows t" using t ne by (rule rows_squeeze)
  moreover have "length (rows t) = length batch_ids" using length_rows [OF t] b by simp
  ultimately show ?thesis using sc m b rc by simp
qed

lemma emb_batches_result:
  assumes "emb_batches params (mods, segs, a) set_loader = Inr (mods', segs', a')"
    and "loader_ok params set_loader"
    and "shape a = [n, d]" "length (data a) = n * d"
    and "length mods = n" "length segs = n"
  shows "mods' = mods @ concat (map fst set_loader) \<and>
         segs' = segs @ concat (map fst set_loader) \<and>
         shape a' = [n + length (concat (map fst set_loader)), d] \<and>
         zip mods' (rows a') = zip mods (rows a) @ utterances params set_loader"
  using assms
proof (induction set_loader arbitrary: mods segs a n)
  case Nil
  then show ?case by (simp add: utterances_def)
next
  case (Cons batch rest)
  obtain batch_ids wavs lens where batch: "batch = (batch_ids, wavs, lens)"
    by (cases batch) auto
  let ?t = "compute_embeddings params wavs lens"
  from Cons.prems(1) batch obtain c where
    c: "concatenate a (squeeze ?t) = Inr c" and
    rest: "emb_batches params (mods @ batch_ids, segs @ batch_ids, c) rest = Inr (mods', segs', a')"
    by (auto simp: Let_def split: sum.splits)
  from Cons.prems(2) batch have ok: "emb_shape_ok batch_ids ?t" and okr: "loader_ok params rest"
    by (simp_all add: loader_ok_def)
  from emb_batch_step [OF ok c Cons.prems(3,4)] have
    sc: "shape c = [n + length batch_ids, d]" and
    lc: "length (data c) = (n + length batch_ids) * d" and
    rc: "rows c = rows a @ rows ?t" and lr: "length (rows ?t) = length batch_ids"
    by simp_all
  have lm: "length (mods @ batch_ids) = n + length batch_ids"
    "length (segs @ batch_ids) = n + length batch_ids"
    using Cons.prems(5,6) by simp_all
  note ih = Cons.IH [OF rest okr sc lc lm]
  have m: "mods' = (mods @ batch_ids) @ concat (map fst rest)"
    using ih by (rule conjunct1)
  have s: "segs' = (segs @ batch_ids) @ concat (map fst rest)"
    using ih by (elim conjE)
  have sh: "shape a' = [n + length batch_ids + length (concat (map fst rest)), d]"
    using ih by (elim conjE)
  have z: "zip mods' (rows a') = zip (mods @ batch_ids) (rows c) @ utterances params rest"
    using ih by (elim conjE)
  have la: "length (rows a) = n" using length_rows [OF Cons.prems(3)] .
  have "zip (mods @ batch_ids) (rows c) = zip mods (rows a) @ zip batch_ids (rows ?t)"
    unfolding rc using la Cons.prems(5) by simp
  moreover have "utterances params (batch # rest) =
      zip batch_ids (rows ?t) @ utterances params rest"
    using batch by (simp add: utterances_def)
  ultimately have "zip mods' (rows a') = zip mods (rows a) @ utterances params (batch # rest)"
    using z by simp
  moreover have "concat (map fst (batch # rest)) = batch_ids @ concat (map fst rest)"
    using batch by simp
  ultimately show ?case using m s sh by simp
qed

lemma emb_batches_succeeds:
  assumes "list_all (\<lambda>(batch_ids, wavs, lens).
             shape (squeeze (compute_embeddings params wavs lens)) = [length batch_ids, d])
           set_loader"
    and "shape a = [n, d]"
  shows "\<exists>mods' segs' a' n'.
           emb_batches params (mods, segs, a) set_loader = Inr (mods', segs', a') \<and>
           shape a' = [n', d]"
  using assms
proof (induction set_loader arbitrary: mods segs a n)
  case Nil
  then show ?case by simp
next
  case (Cons batch rest)
  obtain batch_ids wavs lens where batch: "batch = (batch_ids, wavs, lens)"
    by (cases batch) auto
  let ?x = "squeeze (compute_embeddings params wavs lens)"
  from Cons.prems(1) batch have x: "shape ?x = [length batch_ids, d]"
    and r: "list_all (\<lambda>(batch_ids, wavs, lens).
             shape (squeeze (compute_embeddings params wavs lens)) = [length batch_ids, d]) rest"
    by simp_all
  let ?c = "\<lparr>shape = [n + length batch_ids, d], data = data a @ data ?x\<rparr>"
  have c: "concatenate a ?x = Inr ?c"
    using Cons.prems(2) x by (simp add: concatenate_def)
  have "shape ?c = [n + length batch_ids, d]" by simp
  from Cons.IH [OF r this, of "mods @ batch_ids" "segs @ batch_ids"] c batch
  show ?case by (simp add: Let_def)
qed

lemma stat_object_InrD:
  assumes "stat_object mods segs embeddings = Inr obj"
  shows "\<exists>n r. shape embeddings = n # r \<and>
           obj = \<lparr>StatObject_SB.modelset = mods, segset = segs, start = replicate n None,
                  stop = replicate n None, stat0 = replicate n [1], stat1 = embeddings\<rparr>"
  using assms
  by (cases "shape embeddings") (auto simp: stat_object_def py_index_def Let_def)

lemma stat_object_invariant:
  assumes "stat_object mods segs embeddings = Inr obj"
  shows "stat_invariant obj"
proof -
  from stat_object_InrD [OF assms] obtain n r where
    "shape embeddings = n # r" and
    "obj = \<lparr>StatObject_SB.modelset = mods, segset = segs, start = replicate n None,
            stop = replicate n None, stat0 = replicate n [1], stat1 = embeddings\<rparr>"
    by blast
  then show ?thesis
    by (simp add: stat_invariant_def length_rows list_all_iff)
qed

lemma emb_stat_object_invariant:
  "emb_stat_object params set_loader = Inr obj \<Longrightarrow> stat_invariant obj"
  by (auto simp: emb_stat_object_def split: sum.splits dest: stat_object_invariant)

lemma train_stat_object_invariant:
  "train_stat_object params train_set = Inr obj \<Longrightarrow> stat_invariant obj"
  by (auto simp: train_stat_object_def split: sum.splits dest: stat_object_invariant)

lemma zip_self_zip: "zip xs (zip xs ys) = map (\<lambda>(i, v). (i, i, v)) (zip xs ys)"
proof (induction xs arbitrary: ys)
  case Nil
  then show ?case by simp
next
  case (Cons x xs)
  then show ?case by (cases ys) simp_all
qed

lemma emb_stat_object_contents:
  assumes "emb_stat_object params set_loader = Inr obj" and "loader_ok params set_loader"
  shows "StatObject_SB.modelset obj = concat (map fst set_loader) \<and>
         StatObject_SB.segset obj = concat (map fst set_loader) \<and>
         shape (stat1 obj) = [length (concat (map fst set_loader)), emb_dim params] \<and>
         zip (StatObject_SB.modelset obj) (rows (stat1 obj)) = utterances params set_loader"
proof -
  from assms(1) obtain mods segs a where
    b: "emb_batches params ([], [], numpy_empty (emb_dim params)) set_loader = Inr (mods, segs, a)"
    and s: "stat_object mods segs a = Inr obj"
    by (auto simp: emb_stat_object_def split: sum.splits)
  have r: "mods = concat (map fst set_loader) \<and> segs = concat (map fst set_loader) \<and>
           shape a = [length (concat (map fst set_loader)), emb_dim params] \<and>
           zip mods (rows a) = utterances params set_loader"
    using emb_batches_result [OF b assms(2), of 0 "emb_dim params"]
    by (auto simp: numpy_empty_def numpy_empty_rows [unfolded numpy_empty_def])
  from stat_object_InrD [OF s] have o:
    "StatObject_SB.modelset obj = mods" "StatObject_SB.segset obj = segs" "stat1 obj = a"
    by auto
  show ?thesis unfolding o by (rule r)
qed

lemma assigned_mset:
  assumes "mset (records obj1) = mset (records obj2)"
  shows "assigned obj1 i = assigned obj2 i"
proof -
  have "set (records obj1) = set (records obj2)" using assms by (rule mset_eq_setD)
  then show ?thesis by (simp add: assigned_def)
qed

section \<open>Facts about the two branches\<close>

lemma isfile_File: "fs f = Some (File c) \<Longrightarrow> os_path_isfile fs f"
  by (simp add: os_path_isfile_def)

lemma exists_File: "fs f = Some (File c) \<Longrightarrow> os_path_exists fs f"
  by (simp add: os_path_exists_def)

lemma isfile_None: "fs f = None \<Longrightarrow> \<not> os_path_isfile fs f"
  by (simp add: os_path_isfile_def)

lemma exists_None: "fs f = None \<Longrightarrow> \<not> os_path_exists fs f"
  by (simp add: os_path_exists_def)

lemma emb_computation_loop_fresh:
  assumes "\<not> os_path_isfile fs stat_file"
  shows "emb_computation_loop params pk fs set_loader stat_file =
           (case emb_stat_object params set_loader of
              Inl e \<Rightarrow> Inl e
            | Inr obj \<Rightarrow>
                (case save_object pk fs stat_file obj of
                   Inl e \<Rightarrow> Inl e
                 | Inr fs' \<Rightarrow> Inr (fs', obj)))"
  using assms
  by (simp add: emb_computation_loop_def emb_stat_object_def split: sum.splits prod.splits)

lemma emb_computation_loop_cached:
  assumes "os_path_isfile fs stat_file"
  shows "emb_computation_loop params pk fs set_loader stat_file =
           (case load_object pk fs stat_file of
              Inl e \<Rightarrow> Inl e
            | Inr obj \<Rightarrow> Inr (fs, obj))"
  using assms by (simp add: emb_computation_loop_def)

lemma train_embeddings_fresh:
  assumes "\<not> os_path_exists fs xv_file"
  shows "train_embeddings params pk fs train_set xv_file =
           (case train_stat_object params train_set of
              Inl e \<Rightarrow> Inl e
            | Inr obj \<Rightarrow>
                (case save_object pk fs xv_file obj of
                   Inl e \<Rightarrow> Inl e
                 | Inr fs' \<Rightarrow> Inr (fs', obj)))"
  using assms
  by (simp add: train_embeddings_def train_stat_object_def split: sum.splits prod.splits)

lemma train_embeddings_cached:
  assumes "os_path_exists fs xv_file"
  shows "train_embeddings params pk fs train_set xv_file =
           (case load_object pk fs xv_file of
              Inl e \<Rightarrow> Inl e
            | Inr obj \<Rightarrow> Inr (fs, obj))"
  using assms by (simp add: train_embeddings_def)

lemma emb_computation_loop_built:
  assumes "\<not> os_path_isfile fs stat_file"
    and "emb_computation_loop params pk fs set_loader stat_file = Inr (fs', obj)"
  shows "emb_stat_object params set_loader = Inr obj"
  using assms(2) unfolding emb_computation_loop_fresh [OF assms(1)]
  by (auto split: sum.splits)

lemma train_embeddings_built:
  assumes "\<not> os_path_exists fs xv_file"
    and "train_embeddings params pk fs train_set xv_file = Inr (fs', obj)"
  shows "train_stat_object params train_set = Inr obj"
  using assms(2) unfolding train_embeddings_fresh [OF assms(1)]
  by (auto split: sum.splits)

lemma records_utterances:
  assumes "loader_ok params set_loader"
    and "\<not> os_path_isfile fs stat_file"
    and "emb_computation_loop params pk fs set_loader stat_file = Inr (fs', obj)"
  shows "records obj = map (\<lambda>(i, v). (i, i, v)) (utterances params set_loader)"
proof -
  note b = emb_computation_loop_built [OF assms(2,3)]
  note c = emb_stat_object_contents [OF b assms(1)]
  have m: "StatObject_SB.modelset obj = concat (map fst set_loader)"
    and s: "StatObject_SB.segset obj = concat (map fst set_loader)"
    and z: "zip (StatObject_SB.modelset obj) (rows (stat1 obj)) = utterances params set_loader"
    using c by blast+
  show ?thesis
    unfolding records_def z [symmetric] s m [symmetric] by (rule zip_self_zip)
qed

text \<open>
  The first branch does build a stat object when nothing is at the path, the embedding
  dimension is not one and no batch holds exactly one utterance. A batch of one utterance
  makes \<^verbatim>\<open>squeeze()\<close> drop the batch axis as well, and the concatenation raises
  \<^verbatim>\<open>ValueError\<close>; the loop over the training set uses \<^verbatim>\<open>squeeze(1)\<close> and
  accepts such a batch.
\<close>

lemma emb_computation_loop_succeeds:
  assumes "fs stat_file = None"
    and "emb_dim params \<noteq> 1"
    and "list_all (\<lambda>(batch_ids, wavs, lens).
           length batch_ids \<noteq> 1 \<and>
           (shape (compute_embeddings params wavs lens) = [length batch_ids, emb_dim params] \<or>
            shape (compute_embeddings params wavs lens) = [length batch_ids, 1, emb_dim params]))
         set_loader"
  shows "\<exists>fs' obj. emb_computation_loop params pk fs set_loader stat_file = Inr (fs', obj)"
proof -
  have "list_all (\<lambda>(batch_ids, wavs, lens).
          shape (squeeze (compute_embeddings params wavs lens)) = [length batch_ids, emb_dim params])
        set_loader"
    using assms(3,2) by (fastforce simp: list_all_iff squeeze_def)
  from emb_batches_succeeds [OF this, of "numpy_empty (emb_dim params)" 0 "[]" "[]"]
  obtain mods' segs' a' n' where
    b: "emb_batches params ([], [], numpy_empty (emb_dim params)) set_loader = Inr (mods', segs', a')"
    and s: "shape a' = [n', emb_dim params]"
    by (auto simp: numpy_empty_def)
  have "\<exists>obj. stat_object mods' segs' a' = Inr obj"
    using s by (simp add: stat_object_def py_index_def Let_def)
  then obtain obj where "emb_stat_object params set_loader = Inr obj"
    using b by (auto simp: emb_stat_object_def)
  then show ?thesis
    using assms(1)
    by (simp add: emb_computation_loop_fresh isfile_None save_object_def)
qed

section \<open>Evaluations of the stat object examples\<close>

lemma ex_emb_stat_object: "emb_stat_object ex_params ex_loader = Inr ex_obj"
  by code_simp

lemma ex_emb_stat_object_permuted:
  "emb_stat_object ex_params ex_loader_permuted = Inr ex_obj_permuted"
  by code_simp

lemma ex_train_stat_object: "train_stat_object ex_params ex_train_set = Inr ex_train_obj"
  by code_simp

lemma ex_single_utterance_batch: "emb_stat_object ex_params ex_loader_single = Inl ValueError"
  by code_simp

lemma ex_loader_ok: "loader_ok ex_params ex_loader" "loader_ok ex_params ex_loader_permuted"
  by code_simp+

lemma ex_fs_empty_None: "ex_fs_empty f = None"
  by (simp add: ex_fs_empty_def)

lemma ex_fs_stale_File: "ex_fs_stale ''stat.pkl'' = Some (File (Inl ex_stale_obj))"
  by (simp add: ex_fs_stale_def)

lemma ex_not_isfile: "\<not> os_path_isfile ex_fs_empty f"
  by (simp add: isfile_None ex_fs_empty_None)

lemma ex_not_exists: "\<not> os_path_exists ex_fs_empty f"
  by (simp add: exists_None ex_fs_empty_None)

lemma ex_fresh_run:
  "emb_computation_loop ex_params ex_pickle ex_fs_empty ex_loader ''stat.pkl'' =
     Inr (ex_fs_empty(''stat.pkl'' \<mapsto> File (Inl ex_obj)), ex_obj)"
  by (simp add: emb_computation_loop_fresh isfile_None ex_fs_empty_None ex_emb_stat_object
      save_object_def ex_pickle_def)

lemma ex_fresh_run_permuted:
  "emb_computation_loop ex_params ex_pickle ex_fs_empty ex_loader_permuted ''stat.pkl'' =
     Inr (ex_fs_empty(''stat.pkl'' \<mapsto> File (Inl ex_obj_permuted)), ex_obj_permuted)"
  by (simp add: emb_computation_loop_fresh isfile_None ex_fs_empty_None
      ex_emb_stat_object_permuted save_object_def ex_pickle_def)

lemma ex_fresh_train:
  "train_embeddings ex_params ex_pickle ex_fs_empty ex_train_set ''train.pkl'' =
     Inr (ex_fs_empty(''train.pkl'' \<mapsto> File (Inl ex_train_obj)), ex_train_obj)"
  by (simp add: train_embeddings_fresh exists_None ex_fs_empty_None ex_train_stat_object
      save_object_def ex_pickle_def)

lemma ex_utterances:
  "utterances ex_params ex_loader =
     [(''a'', [1, 2]), (''b'', [3, 4]), (''c'', [5, 6]), (''d'', [7, 8])]"
  "utterances ex_params ex_loader_permuted =
     [(''d'', [7, 8]), (''a'', [1, 2]), (''c'', [5, 6]), (''b'', [3, 4])]"
  by code_simp+

lemma ex_utterances_mset:
  "mset (utterances ex_params ex_loader) = mset (utterances ex_params ex_loader_permuted)"
  unfolding ex_utterances by (simp add: add_mset_commute)

section \<open>Properties of the stat objects and of the caches\<close>

text \<open>
  C5. For the stat object of every split and for the trial index: when a regular file
  is at the path, its content is unpickled and whatever \<^verbatim>\<open>pickle.load\<close> returns
  is used, the loader is not read and nothing is checked; when nothing is at the path,
  the object is computed, written to the path and returned, and the absence of the file
  raises nothing.
\<close>

theorem cache_used_iff_file_exists:
  "(fs f = Some (File c) \<longrightarrow>
      emb_computation_loop params pk fs set_loader f =
        (case load pk c of Inl e \<Rightarrow> Inl e | Inr obj \<Rightarrow> Inr (fs, obj)) \<and>
      train_embeddings params pk fs train_set f =
        (case load pk c of Inl e \<Rightarrow> Inl e | Inr obj \<Rightarrow> Inr (fs, obj)) \<and>
      prepare_ndx params pkn fs enrol_obj test_obj f =
        (case load pkn c of Inl e \<Rightarrow> Inl e | Inr ndx_obj \<Rightarrow> Inr (fs, ndx_obj))) \<and>
   (fs f = None \<longrightarrow>
      emb_computation_loop params pk fs set_loader f =
        (case emb_stat_object params set_loader of
           Inl e \<Rightarrow> Inl e
         | Inr obj \<Rightarrow> Inr (fs(f \<mapsto> File (dump pk obj)), obj)) \<and>
      train_embeddings params pk fs train_set f =
        (case train_stat_object params train_set of
           Inl e \<Rightarrow> Inl e
         | Inr obj \<Rightarrow> Inr (fs(f \<mapsto> File (dump pk obj)), obj)) \<and>
      prepare_ndx params pkn fs enrol_obj test_obj f =
        Inr (fs(f \<mapsto> File (dump pkn
               (Ndx params (StatObject_SB.modelset enrol_obj) (StatObject_SB.modelset test_obj)))),
             Ndx params (StatObject_SB.modelset enrol_obj) (StatObject_SB.modelset test_obj)))"
proof (intro conjI impI)
  assume c: "fs f = Some (File c)"
  show "emb_computation_loop params pk fs set_loader f =
        (case load pk c of Inl e \<Rightarrow> Inl e | Inr obj \<Rightarrow> Inr (fs, obj))"
    using c by (simp add: emb_computation_loop_cached isfile_File load_object_def)
  show "train_embeddings params pk fs train_set f =
        (case load pk c of Inl e \<Rightarrow> Inl e | Inr obj \<Rightarrow> Inr (fs, obj))"
    using c by (simp add: train_embeddings_cached exists_File load_object_def)
  show "prepare_ndx params pkn fs enrol_obj test_obj f =
        (case load pkn c of Inl e \<Rightarrow> Inl e | Inr ndx_obj \<Rightarrow> Inr (fs, ndx_obj))"
    using c by (simp add: prepare_ndx_def isfile_File load_object_def)
next
  assume n: "fs f = None"
  show "emb_computation_loop params pk fs set_loader f =
        (case emb_stat_object params set_loader of
           Inl e \<Rightarrow> Inl e
         | Inr obj \<Rightarrow> Inr (fs(f \<mapsto> File (dump pk obj)), obj))"
    using n by (simp add: emb_computation_loop_fresh isfile_None save_object_def split: sum.splits)
  show "train_embeddings params pk fs train_set f =
        (case train_stat_object params train_set of
           Inl e \<Rightarrow> Inl e
         | Inr obj \<Rightarrow> Inr (fs(f \<mapsto> File (dump pk obj)), obj))"
    using n by (simp add: train_embeddings_fresh exists_None save_object_def split: sum.splits)
  show "prepare_ndx params pkn fs enrol_obj test_obj f =
        Inr (fs(f \<mapsto> File (dump pkn
               (Ndx params (StatObject_SB.modelset enrol_obj) (StatObject_SB.modelset test_obj)))),
             Ndx params (StatObject_SB.modelset enrol_obj) (StatObject_SB.modelset test_obj))"
    using n by (simp add: prepare_ndx_def isfile_None save_object_def Let_def)
qed

theorem cache_used_iff_file_exists_witness:
  "ex_fs_stale ''stat.pkl'' = Some (File (Inl ex_stale_obj)) \<and>
   emb_computation_loop ex_params ex_pickle ex_fs_stale ex_loader ''stat.pkl'' =
     Inr (ex_fs_stale, ex_stale_obj) \<and>
   train_embeddings ex_params ex_pickle ex_fs_stale ex_train_set ''stat.pkl'' =
     Inr (ex_fs_stale, ex_stale_obj) \<and>
   prepare_ndx ex_params ex_ndx_pickle ex_fs_stale ex_obj ex_obj_permuted ''stat.pkl'' =
     Inr (ex_fs_stale, Inl ex_stale_obj) \<and>
   ex_fs_empty ''stat.pkl'' = None \<and>
   emb_computation_loop ex_params ex_pickle ex_fs_empty ex_loader ''stat.pkl'' =
     Inr (ex_fs_empty(''stat.pkl'' \<mapsto> File (Inl ex_obj)), ex_obj) \<and>
   train_embeddings ex_params ex_pickle ex_fs_empty ex_train_set ''stat.pkl'' =
     Inr (ex_fs_empty(''stat.pkl'' \<mapsto> File (Inl ex_train_obj)), ex_train_obj) \<and>
   prepare_ndx ex_params ex_ndx_pickle ex_fs_empty ex_obj ex_obj_permuted ''stat.pkl'' =
     Inr (ex_fs_empty(''stat.pkl'' \<mapsto>
            File (Inr ([''a'', ''b'', ''c'', ''d''], [''d'', ''a'', ''c'', ''b'']))),
          Inr ([''a'', ''b'', ''c'', ''d''], [''d'', ''a'', ''c'', ''b'']))"
proof -
  note stale = cache_used_iff_file_exists
    [where fs = ex_fs_stale and f = "''stat.pkl''" and c = "Inl ex_stale_obj"
       and params = ex_params and pk = ex_pickle and set_loader = ex_loader
       and train_set = ex_train_set and pkn = ex_ndx_pickle
       and enrol_obj = ex_obj and test_obj = ex_obj_permuted, THEN conjunct1, rule_format,
     OF ex_fs_stale_File]
  note fresh = cache_used_iff_file_exists
    [where fs = ex_fs_empty and f = "''stat.pkl''"
       and params = ex_params and pk = ex_pickle and set_loader = ex_loader
       and train_set = ex_train_set and pkn = ex_ndx_pickle
       and enrol_obj = ex_obj and test_obj = ex_obj_permuted, THEN conjunct2, rule_format,
     OF ex_fs_empty_None]
  have p: "load ex_pickle (Inl ex_stale_obj) = Inr ex_stale_obj"
    "load ex_ndx_pickle (Inl ex_stale_obj) = Inr (Inl ex_stale_obj)"
    "dump ex_pickle = Inl" "dump ex_ndx_pickle = (\<lambda>obj. obj)"
    "Ndx ex_params = (\<lambda>models testsegs. Inr (models, testsegs))"
    by (simp_all add: ex_pickle_def ex_ndx_pickle_def ex_params_def)
  have m: "StatObject_SB.modelset ex_obj = [''a'', ''b'', ''c'', ''d'']"
    "StatObject_SB.modelset ex_obj_permuted = [''d'', ''a'', ''c'', ''b'']"
    by (simp_all add: ex_obj_def ex_obj_permuted_def)
  show ?thesis
    using stale fresh
    by (simp add: p m ex_emb_stat_object ex_train_stat_object ex_fs_stale_File ex_fs_empty_None)
qed

text \<open>
  C6. When the extractor returns one entry per utterance and the loop builds a stat
  object, \<^verbatim>\<open>modelset\<close>, \<^verbatim>\<open>segset\<close> and the rows of \<^verbatim>\<open>stat1\<close> are as many
  as the identifiers fed in, and the record at each position is the identifier, the same
  identifier as label, and the vector of the utterance at that position.
\<close>

theorem one_record_per_utterance:
  assumes "loader_ok params set_loader"
    and "\<not> os_path_isfile fs stat_file"
    and "emb_computation_loop params pk fs set_loader stat_file = Inr (fs', obj)"
  shows "length (StatObject_SB.modelset obj) = length (concat (map fst set_loader)) \<and>
         length (StatObject_SB.segset obj) = length (concat (map fst set_loader)) \<and>
         length (rows (stat1 obj)) = length (concat (map fst set_loader)) \<and>
         length (utterances params set_loader) = length (concat (map fst set_loader)) \<and>
         records obj = map (\<lambda>(i, v). (i, i, v)) (utterances params set_loader)"
proof -
  note b = emb_computation_loop_built [OF assms(2,3)]
  note c = emb_stat_object_contents [OF b assms(1)]
  let ?n = "length (concat (map fst set_loader))"
  have m: "StatObject_SB.modelset obj = concat (map fst set_loader)"
    and s: "StatObject_SB.segset obj = concat (map fst set_loader)"
    and sh: "shape (stat1 obj) = [?n, emb_dim params]"
    and z: "zip (StatObject_SB.modelset obj) (rows (stat1 obj)) = utterances params set_loader"
    using c by blast+
  have lr: "length (rows (stat1 obj)) = ?n" using length_rows [OF sh] .
  have "length (utterances params set_loader) = ?n"
    unfolding z [symmetric] using m lr by simp
  moreover have "records obj = map (\<lambda>(i, v). (i, i, v)) (utterances params set_loader)"
    unfolding records_def z [symmetric] s m [symmetric] by (rule zip_self_zip)
  ultimately show ?thesis using m s lr by simp
qed

theorem one_record_per_utterance_witness:
  "loader_ok ex_params ex_loader \<and> \<not> os_path_isfile ex_fs_empty ''stat.pkl'' \<and>
   emb_computation_loop ex_params ex_pickle ex_fs_empty ex_loader ''stat.pkl'' =
     Inr (ex_fs_empty(''stat.pkl'' \<mapsto> File (Inl ex_obj)), ex_obj) \<and>
   length (StatObject_SB.modelset ex_obj) = 4 \<and> length (StatObject_SB.segset ex_obj) = 4 \<and>
   length (rows (stat1 ex_obj)) = 4 \<and>
   records ex_obj =
     [(''a'', ''a'', [1, 2]), (''b'', ''b'', [3, 4]), (''c'', ''c'', [5, 6]), (''d'', ''d'', [7, 8])]"
proof -
  have n: "length (concat (map fst ex_loader)) = 4" by (simp add: ex_loader_def)
  show ?thesis
    using one_record_per_utterance [OF ex_loader_ok(1) ex_not_isfile ex_fresh_run]
      ex_loader_ok(1) ex_not_isfile [of "''stat.pkl''"] ex_fresh_run
    unfolding n ex_utterances by simp
qed

text \<open>
  C7. Two loaders that deliver the same multiset of utterances (identifier and vector),
  in any order and grouping into batches, give stat objects with the same multiset of
  records, so each identifier is assigned the same labels and vectors in both.
\<close>

theorem records_independent_of_arrival_order:
  assumes "loader_ok params loader1" and "loader_ok params loader2"
    and "mset (utterances params loader1) = mset (utterances params loader2)"
    and "\<not> os_path_isfile fs1 file1" and "\<not> os_path_isfile fs2 file2"
    and "emb_computation_loop params pk fs1 loader1 file1 = Inr (fs1', obj1)"
    and "emb_computation_loop params pk fs2 loader2 file2 = Inr (fs2', obj2)"
  shows "mset (records obj1) = mset (records obj2) \<and>
         (\<forall>i. assigned obj1 i = assigned obj2 i)"
proof -
  have r1: "records obj1 = map (\<lambda>(i, v). (i, i, v)) (utterances params loader1)"
    using records_utterances [OF assms(1,4,6)] .
  have r2: "records obj2 = map (\<lambda>(i, v). (i, i, v)) (utterances params loader2)"
    using records_utterances [OF assms(2,5,7)] .
  have "mset (records obj1) = mset (records obj2)"
    unfolding r1 r2 mset_map using assms(3) by simp
  then show ?thesis using assigned_mset by blast
qed

theorem records_independent_of_arrival_order_witness:
  "mset (utterances ex_params ex_loader) = mset (utterances ex_params ex_loader_permuted) \<and>
   utterances ex_params ex_loader \<noteq> utterances ex_params ex_loader_permuted \<and>
   mset (records ex_obj) = mset (records ex_obj_permuted) \<and>
   (\<forall>i. assigned ex_obj i = assigned ex_obj_permuted i)"
  using records_independent_of_arrival_order
    [OF ex_loader_ok ex_utterances_mset ex_not_isfile ex_not_isfile ex_fresh_run
      ex_fresh_run_permuted]
    ex_utterances_mset
  by (simp add: ex_utterances)

text \<open>
  C10. Every stat object that the pipeline constructs, by \<^verbatim>\<open>emb_computation_loop\<close>
  for the enrollment and test sets or by the main script for the training set, has
  \<^verbatim>\<open>None\<close> in every \<^verbatim>\<open>start\<close> and \<^verbatim>\<open>stop\<close> entry and the single value
  \<^verbatim>\<open>1.0\<close> in every row of \<^verbatim>\<open>stat0\<close>, one entry for each row of \<^verbatim>\<open>stat1\<close>.
\<close>

theorem built_stat_objects_have_unit_stats:
  "(\<not> os_path_isfile fs stat_file \<longrightarrow>
    emb_computation_loop params pk fs set_loader stat_file = Inr (fs', obj) \<longrightarrow>
    stat_invariant obj) \<and>
   (\<not> os_path_exists fs xv_file \<longrightarrow>
    train_embeddings params pk fs train_set xv_file = Inr (fs'', embeddings_stat) \<longrightarrow>
    stat_invariant embeddings_stat)"
  using emb_computation_loop_built emb_stat_object_invariant
    train_embeddings_built train_stat_object_invariant
  by blast

theorem built_stat_objects_have_unit_stats_witness:
  "\<not> os_path_isfile ex_fs_empty ''stat.pkl'' \<and>
   emb_computation_loop ex_params ex_pickle ex_fs_empty ex_loader ''stat.pkl'' =
     Inr (ex_fs_empty(''stat.pkl'' \<mapsto> File (Inl ex_obj)), ex_obj) \<and>
   stat_invariant ex_obj \<and>
   \<not> os_path_exists ex_fs_empty ''train.pkl'' \<and>
   train_embeddings ex_params ex_pickle ex_fs_empty ex_train_set ''train.pkl'' =
     Inr (ex_fs_empty(''train.pkl'' \<mapsto> File (Inl ex_train_obj)), ex_train_obj) \<and>
   stat_invariant ex_train_obj"
  using built_stat_objects_have_unit_stats
    [where fs = ex_fs_empty and stat_file = "''stat.pkl''" and params = ex_params
       and pk = ex_pickle and set_loader = ex_loader and obj = ex_obj
       and fs' = "ex_fs_empty(''stat.pkl'' \<mapsto> File (Inl ex_obj))"
       and xv_file = "''train.pkl''" and train_set = ex_train_set
       and embeddings_stat = ex_train_obj
       and fs'' = "ex_fs_empty(''train.pkl'' \<mapsto> File (Inl ex_train_obj))"]
    ex_not_isfile [of "''stat.pkl''"] ex_not_exists [of "''train.pkl''"]
    ex_fresh_run ex_fresh_train
  by blast

end
